theory Spec2Isabelle
  imports Complex_Main
begin

section \<open>Values shared by the handlers\<close>

text \<open>
  The backend is a set of Express handlers over four PostgreSQL tables
  (\<^verbatim>\<open>config/init.sql\<close>). A handler is modelled as a function from the
  database state and the request to the HTTP response and the new database
  state; the signup and the verification handler also take the client of the
  pool they run on and return it as they release it. Strings are lists of code units below 256. The ids and the dates of
  a request are the integer and the date PostgreSQL converts them to.
\<close>

subsection \<open>Decimal rendering\<close>

definition digit_char :: "nat \<Rightarrow> char" where
  "digit_char n = ''0123456789'' ! n"

text \<open>JavaScript's \<^verbatim>\<open>String(n)\<close> for a natural number.\<close>

fun decimal :: "nat \<Rightarrow> string" where
  "decimal n = (if n < 10 then [digit_char n] else decimal (n div 10) @ [digit_char (n mod 10)])"

declare decimal.simps [simp del]

text \<open>Two digits with a leading zero, as \<^verbatim>\<open>to_char\<close> prints \<^verbatim>\<open>HH24\<close> and \<^verbatim>\<open>MI\<close>.\<close>

definition pad2 :: "nat \<Rightarrow> string" where
  "pad2 n = [digit_char (n div 10 mod 10), digit_char (n mod 10)]"

subsection \<open>SQL values\<close>

text \<open>
  A \<^verbatim>\<open>TIME\<close> value: hour, minute and the microseconds within the minute.
  A \<^verbatim>\<open>DATE\<close> is a day number, a \<^verbatim>\<open>TIMESTAMP\<close> a number of
  microseconds.
\<close>

record pgtime =
  hh :: nat
  mi :: nat
  usec :: nat

type_synonym pgdate = nat
type_synonym pgtimestamp = int

definition minutes :: "int \<Rightarrow> pgtimestamp" where
  "minutes n = n * 60000000"

definition seconds :: "int \<Rightarrow> pgtimestamp" where
  "seconds n = n * 1000000"

text \<open>\<^verbatim>\<open>INTERVAL '1 hour'\<close>.\<close>

definition interval_1_hour :: pgtimestamp where
  "interval_1_hour = minutes 60"

text \<open>\<^verbatim>\<open>to_char(time_slot, 'HH24:MI')\<close>.\<close>

definition to_char_HH24_MI :: "pgtime \<Rightarrow> string" where
  "to_char_HH24_MI t = pad2 (hh t) @ '':'' @ pad2 (mi t)"

text \<open>
  The text-to-\<^verbatim>\<open>TIME\<close> conversion belongs to PostgreSQL; the handlers
  take it as the parameter \<open>time_in\<close>, \<open>None\<close> standing for the statement
  failing with an invalid-syntax error. The function below is the part of it
  the examples run on: \<^verbatim>\<open>H:MM\<close> and \<^verbatim>\<open>HH:MM\<close> on the 24-hour clock.
\<close>

definition digit_val :: "char \<Rightarrow> nat option" where
  "digit_val c =
     (let n = (of_char c :: nat) in if 48 \<le> n \<and> n \<le> 57 then Some (n - 48) else None)"

fun digits_val :: "string \<Rightarrow> nat option" where
  "digits_val [] = None"
| "digits_val [c] = digit_val c"
| "digits_val (c # cs) =
     (case (digit_val c, digits_val cs) of
        (Some d, Some r) \<Rightarrow> Some (d * 10 ^ length cs + r)
      | _ \<Rightarrow> None)"

definition clock :: "string \<Rightarrow> string \<Rightarrow> pgtime option" where
  "clock h m =
     (case (digits_val h, digits_val m) of
        (Some a, Some b) \<Rightarrow>
          if a < 24 \<and> b < 60 then Some \<lparr>hh = a, mi = b, usec = 0\<rparr> else None
      | _ \<Rightarrow> None)"

fun time_in_hhmm :: "string \<Rightarrow> pgtime option" where
  "time_in_hhmm [h, c, m1, m0] = (if c = CHR '':'' then clock [h] [m1, m0] else None)"
| "time_in_hhmm [h1, h0, c, m1, m0] = (if c = CHR '':'' then clock [h1, h0] [m1, m0] else None)"
| "time_in_hhmm _ = None"

subsection \<open>Tables\<close>

text \<open>
  One record per table of \<^verbatim>\<open>init.sql\<close>, one field per column the handlers
  read or write (\<^verbatim>\<open>created_at\<close> is never read). The \<^verbatim>\<open>SERIAL\<close>
  columns draw from a sequence each, which a rollback does not rewind.
\<close>

record user_row =
  u_id :: nat
  first_name :: string
  last_name :: string
  email :: string
  password :: string
  user_type :: string
  is_verified :: bool

record otp_row =
  o_id :: nat
  o_user_id :: nat
  otp :: string
  expires_at :: pgtimestamp

record booking_row =
  b_id :: nat
  speaker_id :: nat
  b_user_id :: nat
  booking_date :: pgdate
  time_slot :: pgtime
  status :: string

record db =
  users :: "user_row list"
  otp_verifications :: "otp_row list"
  session_bookings :: "booking_row list"
  users_id_seq :: nat
  otp_id_seq :: nat
  bookings_id_seq :: nat

definition empty_db :: db where
  "empty_db = \<lparr>users = [], otp_verifications = [], session_bookings = [],
     users_id_seq = 1, otp_id_seq = 1, bookings_id_seq = 1\<rparr>"

subsection \<open>Clients of the pool\<close>

text \<open>
  \<^verbatim>\<open>pool.connect()\<close> hands out a client, and
  \<^verbatim>\<open>client.release()\<close> returns it to the pool as it is: idle, or
  still inside the transaction its last user began and never ended, whose
  start time it keeps. On such a client \<^verbatim>\<open>BEGIN\<close> only warns and
  changes nothing. \<^verbatim>\<open>NOW()\<close> is the start time of the current
  transaction: the time of the statement on an idle client, the kept start
  time inside a transaction. \<^verbatim>\<open>COMMIT\<close> and \<^verbatim>\<open>ROLLBACK\<close>
  leave the client idle. Which client a request gets is the choice of the
  pool: the handlers are given for every client.
\<close>

type_synonym client = "pgtimestamp option"

definition idle :: client where
  "idle = None"

definition pg_begin :: "pgtimestamp \<Rightarrow> client \<Rightarrow> client" where
  "pg_begin tm c = (case c of None \<Rightarrow> Some tm | Some started \<Rightarrow> Some started)"

definition pg_now :: "pgtimestamp \<Rightarrow> client \<Rightarrow> pgtimestamp" where
  "pg_now tm c = (case c of None \<Rightarrow> tm | Some started \<Rightarrow> started)"

subsection \<open>Responses\<close>

text \<open>
  What a handler or a package throws: a PostgreSQL error with its SQLSTATE
  code, a \<^verbatim>\<open>TypeError\<close> of the JavaScript runtime, a failure of the
  mail transport or of the calendar API, an error of the token package.
\<close>

datatype exn = PgError string | TypeError | MailError | CalendarError | JsonWebTokenError

datatype claims = Claims (userId: nat) (userType: string) (iat: int) (exp: int)

text \<open>
  The JSON bodies the handlers send: \<^verbatim>\<open>{message}\<close>, \<^verbatim>\<open>{error}\<close> with a
  fixed text, \<^verbatim>\<open>{error: error.message}\<close> of a caught exception,
  \<^verbatim>\<open>{errors}\<close> of the validator, \<^verbatim>\<open>{token}\<close> and the array of slots.
\<close>

datatype body =
    Message string
  | Error string
  | ErrorOf exn
  | Errors "string list"
  | Token string
  | Slots "string list"

type_synonym response = "nat \<times> body"

section \<open>Available slots\<close>

text \<open>\<^verbatim>\<open>Array.from({ length: 8 }, (_, i) => `${i + 9}:00`)\<close>.\<close>

definition allSlots :: "string list" where
  "allSlots = map (\<lambda>i. decimal (i + 9) @ '':00'') [0..<8]"

text \<open>
  \<^verbatim>\<open>GET /available-slots/:speakerId/:date\<close>: the booked slots of the
  speaker on the date, printed by \<^verbatim>\<open>to_char\<close>, are filtered out of
  \<open>allSlots\<close>.
\<close>

definition bookedSlots :: "db \<Rightarrow> nat \<Rightarrow> pgdate \<Rightarrow> string list" where
  "bookedSlots s speakerId date =
     map (\<lambda>row. to_char_HH24_MI (time_slot row))
       (filter (\<lambda>row. speaker_id row = speakerId \<and> booking_date row = date) (session_bookings s))"

definition available_slots :: "db \<Rightarrow> nat \<Rightarrow> pgdate \<Rightarrow> response" where
  "available_slots s speakerId date =
     (200, Slots (filter (\<lambda>slot. slot \<notin> set (bookedSlots s speakerId date)) allSlots))"


section \<open>JavaScript on strings\<close>

text \<open>\<^verbatim>\<open>str.split(':')[0]\<close>: the text before the first colon, all of it when there is none.\<close>

definition split_colon_0 :: "string \<Rightarrow> string" where
  "split_colon_0 str = takeWhile (\<lambda>c. c \<noteq> CHR '':'') str"

text \<open>White space as \<^verbatim>\<open>parseInt\<close> and \<^verbatim>\<open>trim\<close> skip it, among the code units below 256.\<close>

definition StrWhiteSpaceChar :: "char \<Rightarrow> bool" where
  "StrWhiteSpaceChar c = (of_char c \<in> set [9, 10, 11, 12, 13, 32, 160 :: nat])"

definition radix_digit :: "nat \<Rightarrow> char \<Rightarrow> nat option" where
  "radix_digit R c =
     (let n = (of_char c :: nat) in
      if 48 \<le> n \<and> n \<le> 57 then Some (n - 48)
      else if R = 16 \<and> 97 \<le> n \<and> n \<le> 102 then Some (n - 87)
      else if R = 16 \<and> 65 \<le> n \<and> n \<le> 70 then Some (n - 55)
      else None)"

text \<open>
  \<^verbatim>\<open>parseInt(str)\<close> with no radix: leading white space, a sign, a
  \<^verbatim>\<open>0x\<close> prefix selecting base 16, then the longest run of digits;
  \<open>None\<close> is \<^verbatim>\<open>NaN\<close>. (The rounding of long digit runs to a double
  does not change a comparison with 9 or 15.)
\<close>

definition parseInt :: "string \<Rightarrow> int option" where
  "parseInt str =
     (let s = dropWhile StrWhiteSpaceChar str;
          sign = (case s of c # _ \<Rightarrow> if c = CHR ''-'' then - 1 else 1 | [] \<Rightarrow> (1 :: int));
          s1 = (case s of c # r \<Rightarrow> if c = CHR ''-'' \<or> c = CHR ''+'' then r else s | [] \<Rightarrow> s);
          hex = (case s1 of a # b # _ \<Rightarrow> a = CHR ''0'' \<and> (b = CHR ''x'' \<or> b = CHR ''X'') | _ \<Rightarrow> False);
          R = (if hex then 16 else 10 :: nat);
          s2 = (if hex then drop 2 s1 else s1);
          z = takeWhile (\<lambda>c. radix_digit R c \<noteq> None) s2
      in if z = [] then None
         else Some (sign * int (foldl (\<lambda>acc c. acc * R + (case radix_digit R c of Some d \<Rightarrow> d | None \<Rightarrow> 0)) 0 z)))"

text \<open>\<^verbatim>\<open>hour < 9 || hour > 15\<close>: both comparisons are false on \<^verbatim>\<open>NaN\<close>.\<close>

definition hour_out_of_range :: "int option \<Rightarrow> bool" where
  "hour_out_of_range hour = (case hour of None \<Rightarrow> False | Some h \<Rightarrow> h < 9 \<or> h > 15)"

text \<open>The sanitizer \<^verbatim>\<open>trim()\<close>.\<close>

definition trim :: "string \<Rightarrow> string" where
  "trim str = rev (dropWhile StrWhiteSpaceChar (rev (dropWhile StrWhiteSpaceChar str)))"

section \<open>Tokens\<close>

text \<open>
  \<^verbatim>\<open>process.env.JWT_SECRET || 'your-secret-key'\<close>: an unset or empty
  variable gives the default.
\<close>

definition JWT_SECRET :: "string option \<Rightarrow> string" where
  "JWT_SECRET env = (case env of None \<Rightarrow> ''your-secret-key'' | Some k \<Rightarrow> if k = [] then ''your-secret-key'' else k)"


text \<open>
  \<^verbatim>\<open>verifyToken\<close>: the result is \<open>Inr\<close> of the payload or of
  \<^verbatim>\<open>null\<close>; \<open>Inl\<close> would be an exception leaving the function.
\<close>

definition verifyToken :: "(string \<Rightarrow> string \<Rightarrow> exn + claims) \<Rightarrow> string option \<Rightarrow> string \<Rightarrow> exn + claims option" where
  "verifyToken verify env token =
     (case verify token (JWT_SECRET env) of
        Inr decoded \<Rightarrow> Inr (Some decoded)
      | Inl error \<Rightarrow> Inr None)"

text \<open>\<^verbatim>\<open>header.replace('Bearer ', '')\<close> removes the first occurrence.\<close>

fun replace_Bearer :: "string \<Rightarrow> string" where
  "replace_Bearer [] = []"
| "replace_Bearer (c # cs) =
     (if take 7 (c # cs) = ''Bearer '' then drop 7 (c # cs) else c # replace_Bearer cs)"

text \<open>
  The middleware \<^verbatim>\<open>authenticateUser\<close>: \<open>Inl\<close> is the response it sends
  itself, \<open>Inr\<close> the payload it stores in \<^verbatim>\<open>req.user\<close>.
\<close>

definition authenticateUser :: "(string \<Rightarrow> string \<Rightarrow> exn + claims) \<Rightarrow> string option \<Rightarrow> string option \<Rightarrow> response + claims" where
  "authenticateUser verify env authorization =
     (case map_option replace_Bearer authorization of
        None \<Rightarrow> Inl (401, Error ''Authentication required'')
      | Some token \<Rightarrow>
          if token = [] then Inl (401, Error ''Authentication required'')
          else (case verifyToken verify env token of
                  Inr (Some decoded) \<Rightarrow> Inr decoded
                | _ \<Rightarrow> Inl (401, Error ''Invalid token'')))"

section \<open>Statements on the tables\<close>

text \<open>
  The constraints of \<^verbatim>\<open>init.sql\<close> that a statement of the handlers can
  violate: \<^verbatim>\<open>UNIQUE\<close> on \<^verbatim>\<open>users.email\<close> (23505), the foreign keys
  of \<^verbatim>\<open>otp_verifications\<close> and \<^verbatim>\<open>session_bookings\<close> into
  \<^verbatim>\<open>users\<close> (23503) and the \<^verbatim>\<open>VARCHAR\<close> lengths (22001). A value
  too long for its column fails the \<^verbatim>\<open>INSERT\<close> before an id is drawn;
  an \<^verbatim>\<open>INSERT\<close> that violates a uniqueness or foreign-key constraint
  has drawn its id from the sequence. \<^verbatim>\<open>session_bookings\<close> has no
  uniqueness constraint.
\<close>

definition unique_violation :: exn where
  "unique_violation = PgError ''23505''"

definition foreign_key_violation :: exn where
  "foreign_key_violation = PgError ''23503''"

definition string_data_right_truncation :: exn where
  "string_data_right_truncation = PgError ''22001''"

definition invalid_datetime_format :: exn where
  "invalid_datetime_format = PgError ''22007''"

definition select_users_by_email :: "user_row list \<Rightarrow> string \<Rightarrow> user_row list" where
  "select_users_by_email rows e = filter (\<lambda>u. email u = e) rows"

definition fits_users :: "user_row \<Rightarrow> bool" where
  "fits_users u = (length (first_name u) \<le> 255 \<and> length (last_name u) \<le> 255 \<and>
     length (email u) \<le> 255 \<and> length (password u) \<le> 255 \<and> length (user_type u) \<le> 50)"

text \<open>
  \<^verbatim>\<open>INSERT INTO users (first_name, last_name, email, password, user_type)
  ... RETURNING id\<close>; \<^verbatim>\<open>is_verified\<close> takes its default.
\<close>

definition insert_user :: "db \<Rightarrow> string \<Rightarrow> string \<Rightarrow> string \<Rightarrow> string \<Rightarrow> string \<Rightarrow> (exn + nat) \<times> db" where
  "insert_user s firstName lastName e hashedPassword utype =
     (let row = \<lparr>u_id = users_id_seq s, first_name = firstName, last_name = lastName, email = e,
                 password = hashedPassword, user_type = utype, is_verified = False\<rparr>;
          s' = s\<lparr>users_id_seq := users_id_seq s + 1\<rparr>
      in if \<not> fits_users row then (Inl string_data_right_truncation, s)
         else if select_users_by_email (users s) e \<noteq> [] then (Inl unique_violation, s')
         else (Inr (u_id row), s'\<lparr>users := users s @ [row]\<rparr>))"

definition insert_otp :: "db \<Rightarrow> nat \<Rightarrow> string \<Rightarrow> pgtimestamp \<Rightarrow> (exn + nat) \<times> db" where
  "insert_otp s uid code expires =
     (let row = \<lparr>o_id = otp_id_seq s, o_user_id = uid, otp = code, expires_at = expires\<rparr>;
          s' = s\<lparr>otp_id_seq := otp_id_seq s + 1\<rparr>
      in if length code > 6 then (Inl string_data_right_truncation, s)
         else if filter (\<lambda>u. u_id u = uid) (users s) = [] then (Inl foreign_key_violation, s')
         else (Inr (o_id row), s'\<lparr>otp_verifications := otp_verifications s @ [row]\<rparr>))"

definition insert_booking :: "db \<Rightarrow> nat \<Rightarrow> nat \<Rightarrow> pgdate \<Rightarrow> pgtime \<Rightarrow> string \<Rightarrow> (exn + nat) \<times> db" where
  "insert_booking s sid uid d t st =
     (let row = \<lparr>b_id = bookings_id_seq s, speaker_id = sid, b_user_id = uid,
                 booking_date = d, time_slot = t, status = st\<rparr>;
          s' = s\<lparr>bookings_id_seq := bookings_id_seq s + 1\<rparr>
      in if filter (\<lambda>u. u_id u = sid) (users s) = [] \<or> filter (\<lambda>u. u_id u = uid) (users s) = []
         then (Inl foreign_key_violation, s')
         else (Inr (b_id row), s'\<lparr>session_bookings := session_bookings s @ [row]\<rparr>))"

text \<open>
  \<^verbatim>\<open>ROLLBACK\<close> from the working state \<open>s\<close> of a transaction begun in
  \<open>s0\<close>: the tables are those of \<open>s0\<close>, the sequences stay where they are.
\<close>

definition rollback :: "db \<Rightarrow> db \<Rightarrow> db" where
  "rollback s0 s = s0\<lparr>users_id_seq := users_id_seq s, otp_id_seq := otp_id_seq s,
     bookings_id_seq := bookings_id_seq s\<rparr>"


section \<open>Signup, login and OTP verification\<close>

record signup_req =
  req_firstName :: string
  req_lastName :: string
  req_email :: string
  req_password :: string
  req_userType :: string

text \<open>
  The two functions of the validator package whose definition is not part of
  the repository: the test \<^verbatim>\<open>isEmail\<close> and the sanitizer
  \<^verbatim>\<open>normalizeEmail\<close>.
\<close>

record validator =
  isEmail :: "string \<Rightarrow> bool"
  normalizeEmail :: "string \<Rightarrow> string"

text \<open>
  What one call of the handler takes from outside: the time at which it
  runs, the hash \<^verbatim>\<open>hashPassword\<close> returns (it depends on a random
  salt), the integer that
  \<^verbatim>\<open>Math.floor(100000 + Math.random() * 900000)\<close> evaluates to (the
  code computes it in floating point from a random fraction; it lies between
  100000 and 999999) and whether \<^verbatim>\<open>sendVerificationEmail\<close> throws.
\<close>

record signup_env =
  called_at :: pgtimestamp
  hashedPassword :: string
  otp_number :: nat
  mail_fails :: bool

text \<open>\<^verbatim>\<open>signupValidation\<close>: the messages of the checks that fail.\<close>

definition signupValidation :: "validator \<Rightarrow> signup_req \<Rightarrow> string list" where
  "signupValidation V r =
     (if req_firstName r \<noteq> [] then [] else [''First name is required'']) @
     (if req_lastName r \<noteq> [] then [] else [''Last name is required'']) @
     (if isEmail V (req_email r) then [] else [''Valid email is required'']) @
     (if length (req_password r) \<ge> 6 then [] else [''Password must be at least 6 characters'']) @
     (if req_userType r \<in> set [''user'', ''speaker''] then []
      else [''User type must be either user or speaker''])"

text \<open>The request body after the sanitizers of the chain have run.\<close>

definition sanitized :: "validator \<Rightarrow> signup_req \<Rightarrow> signup_req" where
  "sanitized V r = r\<lparr>req_firstName := trim (req_firstName r), req_lastName := trim (req_lastName r),
     req_email := normalizeEmail V (req_email r)\<rparr>"

text \<open>The \<^verbatim>\<open>.toString()\<close> of that integer.\<close>

definition new_otp :: "nat \<Rightarrow> string" where
  "new_otp n = decimal n"

text \<open>The \<^verbatim>\<open>catch\<close> block of the signup handler, after its \<^verbatim>\<open>ROLLBACK\<close>.\<close>

definition signup_catch :: "exn \<Rightarrow> response" where
  "signup_catch error =
     (if error = PgError ''23505'' then (400, Error ''Email already registered'')
      else (500, Error ''Error creating user''))"

text \<open>
  \<^verbatim>\<open>POST /signup\<close> on the client \<open>c0\<close> that \<^verbatim>\<open>pool.connect()\<close>
  has handed out; the result is the response, the client as it is released
  and the tables. The return on an existing email comes after
  \<^verbatim>\<open>BEGIN\<close> and before any \<^verbatim>\<open>COMMIT\<close> or \<^verbatim>\<open>ROLLBACK\<close>:
  it releases the client inside the transaction. After \<^verbatim>\<open>COMMIT\<close> the
  \<^verbatim>\<open>ROLLBACK\<close> of the \<^verbatim>\<open>catch\<close> block has nothing to undo.
\<close>

definition signup :: "validator \<Rightarrow> signup_env \<Rightarrow> client \<Rightarrow> db \<Rightarrow> signup_req \<Rightarrow> response \<times> client \<times> db" where
  "signup V env c0 s0 r0 =
     (let errors = signupValidation V r0; r = sanitized V r0 in
      if errors \<noteq> [] then ((400, Errors errors), c0, s0)
      else
        (let c = pg_begin (called_at env) c0 in
         if select_users_by_email (users s0) (req_email r) \<noteq> []
         then ((400, Error ''Email already registered''), c, s0)
         else
           (case insert_user s0 (req_firstName r) (req_lastName r) (req_email r)
                   (hashedPassword env) (req_userType r) of
              (Inl error, s1) \<Rightarrow> (signup_catch error, idle, rollback s0 s1)
            | (Inr uid, s1) \<Rightarrow>
                (case insert_otp s1 uid (new_otp (otp_number env))
                        (pg_now (called_at env) c + interval_1_hour) of
                   (Inl error, s2) \<Rightarrow> (signup_catch error, idle, rollback s0 s2)
                 | (Inr _, s2) \<Rightarrow>
                     if mail_fails env then (signup_catch MailError, idle, s2)
                     else ((201, Message ''User created successfully. Please verify your email.''),
                           idle, s2)))))"


text \<open>
  The rows of \<^verbatim>\<open>SELECT ov.* FROM otp_verifications ov JOIN users u ON u.id =
  ov.user_id WHERE u.email = $1 AND ov.otp = $2 AND ov.expires_at > NOW()\<close>.
\<close>

definition select_verifications :: "db \<Rightarrow> pgtimestamp \<Rightarrow> string \<Rightarrow> string \<Rightarrow> otp_row list" where
  "select_verifications s t e code =
     concat (map (\<lambda>ov. map (\<lambda>u. ov)
        (filter (\<lambda>u. u_id u = o_user_id ov \<and> email u = e \<and> otp ov = code \<and> expires_at ov > t) (users s)))
        (otp_verifications s))"

definition set_verified :: "db \<Rightarrow> string \<Rightarrow> db" where
  "set_verified s e = s\<lparr>users := map (\<lambda>u. if email u = e then u\<lparr>is_verified := True\<rparr> else u) (users s)\<rparr>"

definition delete_otp :: "db \<Rightarrow> nat \<Rightarrow> db" where
  "delete_otp s i = s\<lparr>otp_verifications := filter (\<lambda>ov. o_id ov \<noteq> i) (otp_verifications s)\<rparr>"

text \<open>
  \<^verbatim>\<open>POST /verify-otp\<close> at the time \<open>tm\<close> on the client \<open>c\<close>, with
  no other request between its statements. The \<^verbatim>\<open>SELECT\<close> runs before
  \<^verbatim>\<open>BEGIN\<close> and compares with the client's \<^verbatim>\<open>NOW()\<close>; the
  return on an empty result releases the client as it came.
\<close>

definition verify_otp :: "pgtimestamp \<Rightarrow> client \<Rightarrow> db \<Rightarrow> string \<Rightarrow> string \<Rightarrow> response \<times> client \<times> db" where
  "verify_otp tm c s0 e code =
     (case select_verifications s0 (pg_now tm c) e code of
        [] \<Rightarrow> ((400, Error ''Invalid or expired OTP''), c, s0)
      | verification # _ \<Rightarrow>
          ((200, Message ''Email verified successfully''), idle,
           delete_otp (set_verified s0 e) (o_id verification)))"

section \<open>Booking\<close>

record book_req =
  req_speakerId :: nat
  req_date :: pgdate
  req_timeSlot :: string

text \<open>The pattern \<^verbatim>\<open>/^([0-9]|1[0-5]):[0]{2}$/\<close> of the validation chain.\<close>

definition is_digit :: "char \<Rightarrow> bool" where
  "is_digit c = (48 \<le> (of_char c :: nat) \<and> (of_char c :: nat) \<le> 57)"

fun timeSlot_matches :: "string \<Rightarrow> bool" where
  "timeSlot_matches [d, c, z1, z0] =
     (is_digit d \<and> c = CHR '':'' \<and> z1 = CHR ''0'' \<and> z0 = CHR ''0'')"
| "timeSlot_matches [a, d, c, z1, z0] =
     (a = CHR ''1'' \<and> (48 \<le> (of_char d :: nat) \<and> (of_char d :: nat) \<le> 53) \<and>
      c = CHR '':'' \<and> z1 = CHR ''0'' \<and> z0 = CHR ''0'')"
| "timeSlot_matches _ = False"

text \<open>
  The chain \<^verbatim>\<open>body('timeSlot').matches(...)\<close> of the booking route: it
  records its message in the request and calls the next handler.
\<close>

definition book_validation :: "book_req \<Rightarrow> string list" where
  "book_validation r =
     (if timeSlot_matches (req_timeSlot r) then []
      else [''Time slot must be on the hour between 9:00 and 15:00''])"

text \<open>
  The rows of \<^verbatim>\<open>SELECT email, user_type FROM users WHERE id IN ($1, $2)\<close>.
\<close>

definition select_emails :: "db \<Rightarrow> nat \<Rightarrow> nat \<Rightarrow> user_row list" where
  "select_emails s a b = filter (\<lambda>u. u_id u = a \<or> u_id u = b) (users s)"

definition count_bookings :: "db \<Rightarrow> nat \<Rightarrow> pgdate \<Rightarrow> pgtime \<Rightarrow> nat" where
  "count_bookings s sid d t =
     length (filter (\<lambda>row. speaker_id row = sid \<and> booking_date row = d \<and> time_slot row = t)
       (session_bookings s))"

text \<open>
  The handler of \<^verbatim>\<open>POST /book\<close>, for the caller \<open>user\<close> that the
  middleware has authenticated. \<open>notify\<close> is what
  \<^verbatim>\<open>Promise.all([sendBookingConfirmation(...), createCalendarEvent(...)])\<close>
  rejects with, if it does. The handler does not read the result of the
  validation chain: the only test of \<^verbatim>\<open>timeSlot\<close> is the one on
  \<^verbatim>\<open>parseInt\<close> of its first field. No statement of the handler reads
  \<^verbatim>\<open>NOW()\<close>, and every path after its \<^verbatim>\<open>BEGIN\<close> ends the
  transaction, so the client is left out.
\<close>

definition book :: "(string \<Rightarrow> pgtime option) \<Rightarrow> exn option \<Rightarrow> db \<Rightarrow> claims \<Rightarrow> book_req \<Rightarrow> response \<times> db" where
  "book time_in notify s0 user r =
     (let hour = parseInt (split_colon_0 (req_timeSlot r)) in
      if hour_out_of_range hour
      then ((400, Error ''Time slot must be between 9 AM and 4 PM''), s0)
      else
        (case time_in (req_timeSlot r) of
           None \<Rightarrow> ((500, ErrorOf invalid_datetime_format), s0)
         | Some t \<Rightarrow>
             if count_bookings s0 (req_speakerId r) (req_date r) t > 0
             then ((400, Error ''Time slot already booked''), s0)
             else
               (case insert_booking s0 (req_speakerId r) (userId user) (req_date r) t ''confirmed'' of
                  (Inl error, s1) \<Rightarrow> ((500, ErrorOf error), rollback s0 s1)
                | (Inr _, s1) \<Rightarrow>
                    (let emails = select_emails s1 (userId user) (req_speakerId r) in
                     case (find (\<lambda>e. user_type e = ''user'') emails,
                           find (\<lambda>e. user_type e = ''speaker'') emails) of
                       (Some userEmail, Some speakerEmail) \<Rightarrow>
                         (case notify of
                            Some error \<Rightarrow> ((500, ErrorOf error), s1)
                          | None \<Rightarrow> ((200, Message ''Session booked successfully''), s1))
                     | _ \<Rightarrow> ((500, ErrorOf TypeError), rollback s0 s1)))))"

text \<open>The route: the middleware, the validation chain, the handler.\<close>

definition book_route :: "(string \<Rightarrow> string \<Rightarrow> exn + claims) \<Rightarrow> string option \<Rightarrow> (string \<Rightarrow> pgtime option) \<Rightarrow>
    exn option \<Rightarrow> db \<Rightarrow> string option \<Rightarrow> book_req \<Rightarrow> response \<times> db" where
  "book_route verify env time_in notify s0 authorization r =
     (case authenticateUser verify env authorization of
        Inl response \<Rightarrow> (response, s0)
      | Inr user \<Rightarrow> (let errors = book_validation r in book time_in notify s0 user r))"

section \<open>The error taxonomy\<close>

text \<open>The responses by which the handlers signal the errors the design names.\<close>

definition DuplicateIdentity :: response where
  "DuplicateIdentity = (400, Error ''Email already registered'')"

definition InvalidCredentials :: response where
  "InvalidCredentials = (401, Error ''Invalid credentials'')"

definition UnverifiedAccount :: response where
  "UnverifiedAccount = (403, Error ''Please verify your email first'')"

definition InvalidOrExpiredCode :: response where
  "InvalidOrExpiredCode = (400, Error ''Invalid or expired OTP'')"

definition SlotUnavailable :: response where
  "SlotUnavailable = (400, Error ''Time slot already booked'')"

definition InvalidSlot :: response where
  "InvalidSlot = (400, Error ''Time slot must be between 9 AM and 4 PM'')"


section \<open>Handlers that run at the same time\<close>

text \<open>
  Every \<^verbatim>\<open>await client.query(...)\<close> is a point where another request can
  run. Two handlers are interleaved statement by statement over the shared
  tables, under PostgreSQL's default isolation level (no handler sets
  another): a statement reads the rows committed so far, the rows a
  transaction has inserted are invisible to the other until its
  \<^verbatim>\<open>COMMIT\<close>, an \<^verbatim>\<open>INSERT\<close> that would collide on a
  \<^verbatim>\<open>UNIQUE\<close> column with a row not yet committed waits for the
  transaction that wrote it, and so does an \<^verbatim>\<open>UPDATE\<close> of a row that
  another transaction has updated and not committed. A schedule says whose
  statement runs next; a handler that waits, or has answered, lets its turn
  pass.
\<close>

fun interleave :: "(db \<Rightarrow> 'p \<Rightarrow> 'p \<Rightarrow> db \<times> 'p) \<Rightarrow> bool list \<Rightarrow> db \<times> 'p \<times> 'p \<Rightarrow> db \<times> 'p \<times> 'p" where
  "interleave step [] c = c"
| "interleave step (True # sch) (s, a, b) =
     (case step s a b of (s', a') \<Rightarrow> interleave step sch (s', a', b))"
| "interleave step (False # sch) (s, a, b) =
     (case step s b a of (s', b') \<Rightarrow> interleave step sch (s', a, b'))"

subsection \<open>The booking handler, statement by statement\<close>

text \<open>
  The statement a booking handler runs next: the \<^verbatim>\<open>SELECT COUNT(*)\<close>
  (with the test of the hour before it), the \<^verbatim>\<open>INSERT\<close>, the
  \<^verbatim>\<open>SELECT\<close> of the two emails, the \<^verbatim>\<open>COMMIT\<close>, the
  notifications; or the response it has sent. The row inserted and not yet
  committed travels with the handler.
\<close>

datatype book_pc =
    Book_Count
  | Book_Insert pgtime
  | Book_Emails "booking_row list"
  | Book_Commit "booking_row list"
  | Book_Notify
  | Book_Done response

record book_proc =
  bp_notify :: "exn option"
  bp_user :: claims
  bp_req :: book_req
  bp_pc :: book_pc

definition book_start :: "exn option \<Rightarrow> claims \<Rightarrow> book_req \<Rightarrow> book_proc" where
  "book_start notify user r = \<lparr>bp_notify = notify, bp_user = user, bp_req = r, bp_pc = Book_Count\<rparr>"

definition book_next :: "(string \<Rightarrow> pgtime option) \<Rightarrow> db \<Rightarrow> book_proc \<Rightarrow> db \<times> book_pc" where
  "book_next time_in s p =
     (let r = bp_req p; user = bp_user p in
      case bp_pc p of
        Book_Count \<Rightarrow>
          if hour_out_of_range (parseInt (split_colon_0 (req_timeSlot r)))
          then (s, Book_Done (400, Error ''Time slot must be between 9 AM and 4 PM''))
          else (case time_in (req_timeSlot r) of
                  None \<Rightarrow> (s, Book_Done (500, ErrorOf invalid_datetime_format))
                | Some t \<Rightarrow>
                    if count_bookings s (req_speakerId r) (req_date r) t > 0
                    then (s, Book_Done (400, Error ''Time slot already booked''))
                    else (s, Book_Insert t))
      | Book_Insert t \<Rightarrow>
          (case insert_booking s (req_speakerId r) (userId user) (req_date r) t ''confirmed'' of
             (Inl error, s1) \<Rightarrow> (rollback s s1, Book_Done (500, ErrorOf error))
           | (Inr _, s1) \<Rightarrow>
               (rollback s s1, Book_Emails (drop (length (session_bookings s)) (session_bookings s1))))
      | Book_Emails rows \<Rightarrow>
          (let emails = select_emails s (userId user) (req_speakerId r) in
           case (find (\<lambda>e. user_type e = ''user'') emails,
                 find (\<lambda>e. user_type e = ''speaker'') emails) of
             (Some userEmail, Some speakerEmail) \<Rightarrow> (s, Book_Commit rows)
           | _ \<Rightarrow> (s, Book_Done (500, ErrorOf TypeError)))
      | Book_Commit rows \<Rightarrow> (s\<lparr>session_bookings := session_bookings s @ rows\<rparr>, Book_Notify)
      | Book_Notify \<Rightarrow>
          (case bp_notify p of
             Some error \<Rightarrow> (s, Book_Done (500, ErrorOf error))
           | None \<Rightarrow> (s, Book_Done (200, Message ''Session booked successfully'')))
      | Book_Done response \<Rightarrow> (s, Book_Done response))"

text \<open>No statement of the booking handler waits for the other transaction.\<close>

definition book_step :: "(string \<Rightarrow> pgtime option) \<Rightarrow> db \<Rightarrow> book_proc \<Rightarrow> book_proc \<Rightarrow> db \<times> book_proc" where
  "book_step time_in s p other = (case book_next time_in s p of (s', pc) \<Rightarrow> (s', p\<lparr>bp_pc := pc\<rparr>))"

subsection \<open>The signup handler, statement by statement\<close>

datatype signup_pc =
    Signup_Select
  | Signup_InsertUser
  | Signup_InsertOtp nat "user_row list"
  | Signup_Commit "user_row list" "otp_row list"
  | Signup_Mail
  | Signup_Done response

record signup_proc =
  sp_env :: signup_env
  sp_client :: client
  sp_req :: signup_req
  sp_pc :: signup_pc

definition signup_start :: "signup_env \<Rightarrow> client \<Rightarrow> signup_req \<Rightarrow> signup_proc" where
  "signup_start env c r = \<lparr>sp_env = env, sp_client = c, sp_req = r, sp_pc = Signup_Select\<rparr>"

text \<open>The user rows a handler has inserted and not yet committed.\<close>

definition uncommitted_users :: "signup_proc \<Rightarrow> user_row list" where
  "uncommitted_users p =
     (case sp_pc p of
        Signup_InsertOtp _ rows \<Rightarrow> rows
      | Signup_Commit rows _ \<Rightarrow> rows
      | _ \<Rightarrow> [])"

text \<open>
  The statement a signup handler runs next: the \<^verbatim>\<open>SELECT\<close> (with the
  validation and the \<^verbatim>\<open>BEGIN\<close> before it), the two
  \<^verbatim>\<open>INSERT\<close>s, the \<^verbatim>\<open>COMMIT\<close>, the mail.
\<close>

definition signup_step :: "validator \<Rightarrow> db \<Rightarrow> signup_proc \<Rightarrow> signup_proc \<Rightarrow> db \<times> signup_proc" where
  "signup_step V s p other =
     (let env = sp_env p; r = sanitized V (sp_req p) in
      case sp_pc p of
        Signup_Select \<Rightarrow>
          (let errors = signupValidation V (sp_req p) in
           if errors \<noteq> [] then (s, p\<lparr>sp_pc := Signup_Done (400, Errors errors)\<rparr>)
           else if select_users_by_email (users s) (req_email r) \<noteq> []
           then (s, p\<lparr>sp_client := pg_begin (called_at env) (sp_client p),
                       sp_pc := Signup_Done (400, Error ''Email already registered'')\<rparr>)
           else (s, p\<lparr>sp_client := pg_begin (called_at env) (sp_client p),
                       sp_pc := Signup_InsertUser\<rparr>))
      | Signup_InsertUser \<Rightarrow>
          if select_users_by_email (uncommitted_users other) (req_email r) \<noteq> [] then (s, p)
          else (case insert_user s (req_firstName r) (req_lastName r) (req_email r)
                       (hashedPassword env) (req_userType r) of
                  (Inl error, s1) \<Rightarrow>
                    (rollback s s1, p\<lparr>sp_client := idle, sp_pc := Signup_Done (signup_catch error)\<rparr>)
                | (Inr uid, s1) \<Rightarrow>
                    (rollback s s1, p\<lparr>sp_pc := Signup_InsertOtp uid (drop (length (users s)) (users s1))\<rparr>))
      | Signup_InsertOtp uid rows \<Rightarrow>
          (case insert_otp (s\<lparr>users := users s @ rows\<rparr>) uid (new_otp (otp_number env))
                  (pg_now (called_at env) (sp_client p) + interval_1_hour) of
             (Inl error, s2) \<Rightarrow>
               (rollback s s2, p\<lparr>sp_client := idle, sp_pc := Signup_Done (signup_catch error)\<rparr>)
           | (Inr _, s2) \<Rightarrow>
               (rollback s s2,
                p\<lparr>sp_pc := Signup_Commit rows
                     (drop (length (otp_verifications s)) (otp_verifications s2))\<rparr>))
      | Signup_Commit rows codes \<Rightarrow>
          (s\<lparr>users := users s @ rows, otp_verifications := otp_verifications s @ codes\<rparr>,
           p\<lparr>sp_client := idle, sp_pc := Signup_Mail\<rparr>)
      | Signup_Mail \<Rightarrow>
          (if mail_fails env then (s, p\<lparr>sp_pc := Signup_Done (signup_catch MailError)\<rparr>)
           else (s, p\<lparr>sp_pc := Signup_Done
                   (201, Message ''User created successfully. Please verify your email.'')\<rparr>))
      | Signup_Done response \<Rightarrow> (s, p))"

subsection \<open>The verification handler, statement by statement\<close>

text \<open>
  The statement a verification handler runs next: the \<^verbatim>\<open>SELECT\<close>, the
  \<^verbatim>\<open>UPDATE\<close> (with the \<^verbatim>\<open>BEGIN\<close> before it), the
  \<^verbatim>\<open>DELETE\<close>, the \<^verbatim>\<open>COMMIT\<close> (with the response after it). From
  the second on they carry the row the \<^verbatim>\<open>SELECT\<close> has found. The
  \<^verbatim>\<open>UPDATE\<close> and the \<^verbatim>\<open>DELETE\<close> take effect for the other
  handler at the \<^verbatim>\<open>COMMIT\<close>.
\<close>

datatype verify_pc =
    Verify_Select
  | Verify_Update otp_row
  | Verify_Delete otp_row
  | Verify_Commit otp_row
  | Verify_Done response

record verify_proc =
  vp_at :: pgtimestamp
  vp_client :: client
  vp_email :: string
  vp_code :: string
  vp_pc :: verify_pc

definition verify_start :: "pgtimestamp \<Rightarrow> client \<Rightarrow> string \<Rightarrow> string \<Rightarrow> verify_proc" where
  "verify_start tm c e code =
     \<lparr>vp_at = tm, vp_client = c, vp_email = e, vp_code = code, vp_pc = Verify_Select\<rparr>"

text \<open>The handler has updated the accounts of its email and not committed.\<close>

definition uncommitted_update :: "verify_proc \<Rightarrow> bool" where
  "uncommitted_update p =
     (case vp_pc p of
        Verify_Delete _ \<Rightarrow> True
      | Verify_Commit _ \<Rightarrow> True
      | _ \<Rightarrow> False)"

definition verify_step :: "db \<Rightarrow> verify_proc \<Rightarrow> verify_proc \<Rightarrow> db \<times> verify_proc" where
  "verify_step s p other =
     (case vp_pc p of
        Verify_Select \<Rightarrow>
          (case select_verifications s (pg_now (vp_at p) (vp_client p)) (vp_email p) (vp_code p) of
             [] \<Rightarrow> (s, p\<lparr>vp_pc := Verify_Done (400, Error ''Invalid or expired OTP'')\<rparr>)
           | verification # _ \<Rightarrow> (s, p\<lparr>vp_pc := Verify_Update verification\<rparr>))
      | Verify_Update verification \<Rightarrow>
          if uncommitted_update other \<and> vp_email other = vp_email p then (s, p)
          else (s, p\<lparr>vp_client := pg_begin (vp_at p) (vp_client p),
                      vp_pc := Verify_Delete verification\<rparr>)
      | Verify_Delete verification \<Rightarrow> (s, p\<lparr>vp_pc := Verify_Commit verification\<rparr>)
      | Verify_Commit verification \<Rightarrow>
          (delete_otp (set_verified s (vp_email p)) (o_id verification),
           p\<lparr>vp_client := idle, vp_pc := Verify_Done (200, Message ''Email verified successfully'')\<rparr>)
      | Verify_Done response \<Rightarrow> (s, p))"


section \<open>Invariants of the tables\<close>

text \<open>The primary key of \<^verbatim>\<open>users\<close>, drawn from its sequence.\<close>

definition pk_users :: "db \<Rightarrow> bool" where
  "pk_users s = (distinct (map u_id (users s)) \<and> list_all (\<lambda>u. u_id u < users_id_seq s) (users s))"

text \<open>\<^verbatim>\<open>email VARCHAR(255) UNIQUE\<close>.\<close>

definition unique_email :: "db \<Rightarrow> bool" where
  "unique_email s = distinct (map email (users s))"

text \<open>
  The codes: a primary key drawn from the sequence, an owner that exists,
  and never two codes of one account (the only \<^verbatim>\<open>INSERT\<close> into the
  table is the one of the signup, for the account it has just created).
\<close>

definition otp_ok :: "db \<Rightarrow> bool" where
  "otp_ok s = (distinct (map o_id (otp_verifications s)) \<and>
     distinct (map o_user_id (otp_verifications s)) \<and>
     list_all (\<lambda>ov. o_id ov < otp_id_seq s \<and> o_user_id ov \<in> set (map u_id (users s)))
       (otp_verifications s))"

definition wf_db :: "db \<Rightarrow> bool" where
  "wf_db s = (pk_users s \<and> unique_email s \<and> otp_ok s)"

text \<open>At most one reservation for a provider, a date and a time.\<close>

definition slot_key :: "booking_row \<Rightarrow> nat \<times> pgdate \<times> pgtime" where
  "slot_key row = (speaker_id row, booking_date row, time_slot row)"

definition unique_slots :: "db \<Rightarrow> bool" where
  "unique_slots s = distinct (map slot_key (session_bookings s))"

text \<open>
  The tables that requests handled one after the other lead to, on whatever
  clients the pool hands out.
\<close>

inductive reachable :: "validator \<Rightarrow> (string \<Rightarrow> pgtime option) \<Rightarrow> db \<Rightarrow> bool"
  for V :: validator and time_in :: "string \<Rightarrow> pgtime option" where
  reachable_empty: "reachable V time_in empty_db"
| reachable_signup: "reachable V time_in s \<Longrightarrow> reachable V time_in (snd (snd (signup V env c s r)))"
| reachable_verify_otp: "reachable V time_in s \<Longrightarrow> reachable V time_in (snd (snd (verify_otp tm c s e code)))"
| reachable_book: "reachable V time_in s \<Longrightarrow> reachable V time_in (snd (book time_in notify s user r))"

section \<open>Notions the properties are stated with\<close>

text \<open>The rows a successful signup on the client \<open>c\<close> adds.\<close>

definition new_user_row :: "validator \<Rightarrow> signup_env \<Rightarrow> db \<Rightarrow> signup_req \<Rightarrow> user_row" where
  "new_user_row V env s r =
     \<lparr>u_id = users_id_seq s, first_name = trim (req_firstName r), last_name = trim (req_lastName r),
      email = normalizeEmail V (req_email r), password = hashedPassword env,
      user_type = req_userType r, is_verified = False\<rparr>"

definition new_otp_row :: "signup_env \<Rightarrow> client \<Rightarrow> db \<Rightarrow> otp_row" where
  "new_otp_row env c s =
     \<lparr>o_id = otp_id_seq s, o_user_id = users_id_seq s, otp = new_otp (otp_number env),
      expires_at = pg_now (called_at env) c + interval_1_hour\<rparr>"

definition signed_up :: "validator \<Rightarrow> signup_env \<Rightarrow> client \<Rightarrow> db \<Rightarrow> signup_req \<Rightarrow> db" where
  "signed_up V env c s r =
     s\<lparr>users := users s @ [new_user_row V env s r],
       otp_verifications := otp_verifications s @ [new_otp_row env c s],
       users_id_seq := users_id_seq s + 1, otp_id_seq := otp_id_seq s + 1\<rparr>"

text \<open>The verification codes of the account with the email \<open>e\<close>.\<close>

definition codes_of :: "db \<Rightarrow> string \<Rightarrow> otp_row list" where
  "codes_of s e =
     filter (\<lambda>ov. list_ex (\<lambda>u. u_id u = o_user_id ov \<and> email u = e) (users s)) (otp_verifications s)"

text \<open>The account with the email \<open>e\<close> has an unexpired code \<open>code\<close> at the time \<open>t\<close>.\<close>

definition redeemable :: "db \<Rightarrow> pgtimestamp \<Rightarrow> string \<Rightarrow> string \<Rightarrow> bool" where
  "redeemable s t e code = list_ex (\<lambda>ov. otp ov = code \<and> expires_at ov > t) (codes_of s e)"

text \<open>
  The tables of \<open>s'\<close> are those of \<open>s\<close>; the sequences may have moved on.
\<close>

definition same_tables :: "db \<Rightarrow> db \<Rightarrow> bool" where
  "same_tables s s' = (users s' = users s \<and> otp_verifications s' = otp_verifications s \<and>
     session_bookings s' = session_bookings s \<and> users_id_seq s \<le> users_id_seq s' \<and>
     otp_id_seq s \<le> otp_id_seq s' \<and> bookings_id_seq s \<le> bookings_id_seq s')"

text \<open>A response of the success class of HTTP.\<close>

definition success_class :: "response \<Rightarrow> bool" where
  "success_class response = (200 \<le> fst response \<and> fst response < 300)"

text \<open>
  The accounts looked up for a booking are a pair of one account of role
  \<^verbatim>\<open>user\<close> and one of role \<^verbatim>\<open>speaker\<close>.
\<close>

definition one_user_one_speaker :: "user_row list \<Rightarrow> bool" where
  "one_user_one_speaker rows = (length rows = 2 \<and>
     length (filter (\<lambda>u. user_type u = ''user'') rows) = 1 \<and>
     length (filter (\<lambda>u. user_type u = ''speaker'') rows) = 1)"

subsection \<open>Two signups for one email\<close>

text \<open>
  A signup request that passes the validation chain, has the normalized
  email \<open>e\<close>, and whose values fit their columns (the code does when
  the integer drawn has at most six digits).
\<close>

definition contender :: "validator \<Rightarrow> string \<Rightarrow> signup_proc \<Rightarrow> bool" where
  "contender V e p =
     (signupValidation V (sp_req p) = [] \<and> normalizeEmail V (req_email (sp_req p)) = e \<and>
      length (trim (req_firstName (sp_req p))) \<le> 255 \<and> length (trim (req_lastName (sp_req p))) \<le> 255 \<and>
      length e \<le> 255 \<and> length (hashedPassword (sp_env p)) \<le> 255 \<and>
      otp_number (sp_env p) < 1000000)"

text \<open>
  Where such a handler stands: it has not inserted yet, it has inserted the
  account and not committed, it has committed, or it has answered that the
  email is taken.
\<close>

definition early :: "signup_proc \<Rightarrow> bool" where
  "early p = (sp_pc p = Signup_Select \<or> sp_pc p = Signup_InsertUser)"




definition count_email :: "db \<Rightarrow> string \<Rightarrow> nat" where
  "count_email s e = length (select_users_by_email (users s) e)"




section \<open>Example data\<close>

text \<open>
  A validator for the examples (an address is anything with an
  \<^verbatim>\<open>@\<close>, left as it is), two registration requests, and the tables
  after both have signed up.
\<close>

definition V0 :: validator where
  "V0 = \<lparr>isEmail = (\<lambda>e. CHR ''@'' \<in> set e), normalizeEmail = (\<lambda>e. e)\<rparr>"

definition ann :: signup_req where
  "ann = \<lparr>req_firstName = ''Ann'', req_lastName = ''Lee'', req_email = ''ann@x.io'',
     req_password = ''secret1'', req_userType = ''user''\<rparr>"

definition bob :: signup_req where
  "bob = \<lparr>req_firstName = ''Bob'', req_lastName = ''Ray'', req_email = ''bob@x.io'',
     req_password = ''secret2'', req_userType = ''speaker''\<rparr>"

definition env0 :: signup_env where
  "env0 = \<lparr>called_at = 0, hashedPassword = ''$2a$10$h'', otp_number = 550000, mail_fails = False\<rparr>"

definition ann_row :: user_row where
  "ann_row = \<lparr>u_id = 1, first_name = ''Ann'', last_name = ''Lee'', email = ''ann@x.io'',
     password = ''$2a$10$h'', user_type = ''user'', is_verified = False\<rparr>"

definition bob_row :: user_row where
  "bob_row = \<lparr>u_id = 2, first_name = ''Bob'', last_name = ''Ray'', email = ''bob@x.io'',
     password = ''$2a$10$h'', user_type = ''speaker'', is_verified = False\<rparr>"

definition ann_db :: db where
  "ann_db = \<lparr>users = [ann_row],
     otp_verifications = [\<lparr>o_id = 1, o_user_id = 1, otp = ''550000'', expires_at = 3600000000\<rparr>],
     session_bookings = [], users_id_seq = 2, otp_id_seq = 2, bookings_id_seq = 1\<rparr>"

definition demo_db :: db where
  "demo_db = \<lparr>users = [ann_row, bob_row],
     otp_verifications = [\<lparr>o_id = 1, o_user_id = 1, otp = ''550000'', expires_at = 3600000000\<rparr>,
       \<lparr>o_id = 2, o_user_id = 2, otp = ''550000'', expires_at = 3600000000\<rparr>],
     session_bookings = [], users_id_seq = 3, otp_id_seq = 3, bookings_id_seq = 1\<rparr>"

text \<open>Ann's token payload, and her requests for Bob's slots on 2024-12-15.\<close>

definition ann_claims :: claims where
  "ann_claims = Claims 1 ''user'' 0 86400"

definition slot_req :: "string \<Rightarrow> book_req" where
  "slot_req ts = \<lparr>req_speakerId = 2, req_date = 20072, req_timeSlot = ts\<rparr>"

definition booked_row :: "nat \<Rightarrow> nat \<Rightarrow> nat \<Rightarrow> booking_row" where
  "booked_row i h m = \<lparr>b_id = i, speaker_id = 2, b_user_id = 1, booking_date = 20072,
     time_slot = \<lparr>hh = h, mi = m, usec = 0\<rparr>, status = ''confirmed''\<rparr>"


text \<open>
  A third account, Cat, of role \<^verbatim>\<open>user\<close>, and a second request that
  registers Ann's address.
\<close>

definition cat_row :: user_row where
  "cat_row = \<lparr>u_id = 3, first_name = ''Cat'', last_name = ''Poe'', email = ''cat@x.io'',
     password = ''$2a$10$h'', user_type = ''user'', is_verified = False\<rparr>"

definition trio_db :: db where
  "trio_db = \<lparr>users = [ann_row, bob_row, cat_row],
     otp_verifications = [\<lparr>o_id = 1, o_user_id = 1, otp = ''550000'', expires_at = 3600000000\<rparr>,
       \<lparr>o_id = 2, o_user_id = 2, otp = ''550000'', expires_at = 3600000000\<rparr>,
       \<lparr>o_id = 3, o_user_id = 3, otp = ''550000'', expires_at = 3600000000\<rparr>],
     session_bookings = [], users_id_seq = 4, otp_id_seq = 4, bookings_id_seq = 1\<rparr>"

definition cat_claims :: claims where
  "cat_claims = Claims 3 ''user'' 0 86400"

definition ann2 :: signup_req where
  "ann2 = \<lparr>req_firstName = ''Anna'', req_lastName = ''Lee'', req_email = ''ann@x.io'',
     req_password = ''secret3'', req_userType = ''speaker''\<rparr>"


text \<open>
  The tables after Ann's signup at time 0 and Bob's signup on a client left
  inside a transaction that began 10 minutes after time 0: Bob's code
  expires 70 minutes after time 0, whenever he signs up.
\<close>

definition late_db :: db where
  "late_db = \<lparr>users = [ann_row, bob_row],
     otp_verifications = [\<lparr>o_id = 1, o_user_id = 1, otp = ''550000'', expires_at = 3600000000\<rparr>,
       \<lparr>o_id = 2, o_user_id = 2, otp = ''550000'', expires_at = 4200000000\<rparr>],
     session_bookings = [], users_id_seq = 3, otp_id_seq = 3, bookings_id_seq = 1\<rparr>"

text \<open>The tables after Ann has redeemed her code.\<close>

definition verified_db :: db where
  "verified_db = \<lparr>users = [ann_row\<lparr>is_verified := True\<rparr>], otp_verifications = [],
     session_bookings = [], users_id_seq = 2, otp_id_seq = 2, bookings_id_seq = 1\<rparr>"


section \<open>Evaluation of the examples\<close>

lemmas example_defs = V0_def ann_def bob_def env0_def ann_row_def bob_row_def ann_db_def
  demo_db_def ann_claims_def slot_req_def booked_row_def empty_db_def cat_row_def trio_db_def
  cat_claims_def ann2_def late_db_def verified_db_def

lemmas js_defs = parseInt_def split_colon_0_def hour_out_of_range_def StrWhiteSpaceChar_def
  radix_digit_def trim_def clock_def digit_val_def to_char_HH24_MI_def pad2_def digit_char_def
  is_digit_def

lemmas sql_defs = insert_user_def insert_otp_def insert_booking_def rollback_def
  select_users_by_email_def fits_users_def select_emails_def count_bookings_def
  select_verifications_def set_verified_def delete_otp_def unique_violation_def
  foreign_key_violation_def string_data_right_truncation_def invalid_datetime_format_def

lemmas signup_defs = signup_def signupValidation_def sanitized_def new_otp_def signup_catch_def
  interval_1_hour_def minutes_def pg_begin_def pg_now_def idle_def

lemmas taxonomy_defs = DuplicateIdentity_def InvalidCredentials_def UnverifiedAccount_def
  InvalidOrExpiredCode_def SlotUnavailable_def InvalidSlot_def

lemma allSlots_eq:
  "allSlots = [''9:00'', ''10:00'', ''11:00'', ''12:00'', ''13:00'', ''14:00'', ''15:00'', ''16:00'']"
  by (simp add: allSlots_def decimal.simps digit_char_def upt_rec)

text \<open>The example tables are what the two signups produce from the empty database.\<close>

lemma signup_ann:
  "signup V0 env0 idle empty_db ann =
     ((201, Message ''User created successfully. Please verify your email.''), idle, ann_db)"
  by (simp add: signup_defs decimal.simps Let_def example_defs js_defs sql_defs)

lemma signup_bob:
  "signup V0 env0 idle ann_db bob =
     ((201, Message ''User created successfully. Please verify your email.''), idle, demo_db)"
  by (simp add: signup_defs decimal.simps Let_def example_defs js_defs sql_defs)

lemma reachable_demo_db: "reachable V0 time_in demo_db"
proof -
  have "reachable V0 time_in (snd (snd (signup V0 env0 idle empty_db ann)))"
    by (rule reachable_signup) (rule reachable_empty)
  then have "reachable V0 time_in ann_db"
    by (simp add: signup_ann)
  then have "reachable V0 time_in (snd (snd (signup V0 env0 idle ann_db bob)))"
    by (rule reachable_signup)
  then show ?thesis
    by (simp add: signup_bob)
qed

section \<open>The slots listed as available\<close>

lemma available_slots_fresh:
  "filter (\<lambda>row. speaker_id row = sid \<and> booking_date row = d) (session_bookings s) = [] \<Longrightarrow>
   available_slots s sid d = (200, Slots allSlots) \<and> length allSlots = 8"
  by (simp add: available_slots_def bookedSlots_def allSlots_eq)

lemma book_ten:
  "book time_in_hhmm None demo_db ann_claims (slot_req ''10:00'') =
     ((200, Message ''Session booked successfully''),
      demo_db\<lparr>session_bookings := [booked_row 1 10 0], bookings_id_seq := 2\<rparr>)"
  by (simp add: book_def Let_def example_defs js_defs sql_defs)

lemma available_slots_after_ten:
  "available_slots (demo_db\<lparr>session_bookings := [booked_row 1 10 0], bookings_id_seq := 2\<rparr>) 2 20072 =
     (200, Slots [''9:00'', ''11:00'', ''12:00'', ''13:00'', ''14:00'', ''15:00'', ''16:00''])"
  by (simp add: available_slots_def bookedSlots_def allSlots_eq example_defs js_defs)

text \<open>
  C5. The claim: the listing is the eight slots without every slot that is
  booked, a booked 9:00 included. The code prints a booked time with
  \<^verbatim>\<open>HH24\<close>, two digits, and compares it with the slot names built
  without a leading zero: after Ann has booked Bob's 9:00 slot through the
  booking handler, the listing for Bob on that day still has all eight slots,
  \<^verbatim>\<open>9:00\<close> first.
\<close>

theorem available_slots_lists_booked_nine:
  "book time_in_hhmm None demo_db ann_claims (slot_req ''9:00'') =
     ((200, Message ''Session booked successfully''),
      demo_db\<lparr>session_bookings := [booked_row 1 9 0], bookings_id_seq := 2\<rparr>) \<and>
   bookedSlots (demo_db\<lparr>session_bookings := [booked_row 1 9 0], bookings_id_seq := 2\<rparr>) 2 20072 =
     [''09:00''] \<and>
   available_slots (demo_db\<lparr>session_bookings := [booked_row 1 9 0], bookings_id_seq := 2\<rparr>) 2 20072 =
     (200, Slots [''9:00'', ''10:00'', ''11:00'', ''12:00'', ''13:00'', ''14:00'', ''15:00'', ''16:00''])"
  by (simp add: book_def available_slots_def bookedSlots_def allSlots_eq Let_def
      example_defs js_defs sql_defs)

section \<open>The time slot a booking accepts\<close>

lemma book_rejects_early_and_late:
  "book time_in notify s user (r\<lparr>req_timeSlot := ''08:00''\<rparr>) = (InvalidSlot, s) \<and>
   book time_in notify s user (r\<lparr>req_timeSlot := ''16:00''\<rparr>) = (InvalidSlot, s)"
  by (simp add: book_def Let_def js_defs InvalidSlot_def)

text \<open>
  C4. The claim: a time slot that is malformed or has minutes other than 00
  fails with InvalidSlot before any change of state. The pattern of the
  validation chain rejects \<^verbatim>\<open>9:30\<close>, but the handler never reads the
  chain's result and tests only the hour: Ann's request for \<^verbatim>\<open>9:30\<close>
  is answered with 200 and the reservation is stored.
\<close>

theorem book_accepts_half_past_nine:
  "book_validation (slot_req ''9:30'') = [''Time slot must be on the hour between 9:00 and 15:00''] \<and>
   book time_in_hhmm None demo_db ann_claims (slot_req ''9:30'') =
     ((200, Message ''Session booked successfully''),
      demo_db\<lparr>session_bookings := [booked_row 1 9 30], bookings_id_seq := 2\<rparr>) \<and>
   fst (book time_in_hhmm None demo_db ann_claims (slot_req ''9:30'')) \<noteq> InvalidSlot"
  by (simp add: book_validation_def book_def Let_def example_defs js_defs sql_defs InvalidSlot_def)

section \<open>Tokens\<close>

text \<open>
  C9. \<^verbatim>\<open>verifyToken\<close> returns for every token, whatever the checking
  primitive does with it: the payload when the primitive returns one,
  \<^verbatim>\<open>null\<close> when it throws. No exception leaves the function.
\<close>

theorem verifyToken_never_throws:
  "(\<exists>decoded. verify token (JWT_SECRET env) = Inr decoded \<and>
       verifyToken verify env token = Inr (Some decoded)) \<or>
   (\<exists>error. verify token (JWT_SECRET env) = Inl error \<and>
       verifyToken verify env token = Inr None)"
  by (cases "verify token (JWT_SECRET env)") (simp_all add: verifyToken_def)

section \<open>Login\<close>






section \<open>What the handlers do to the tables\<close>

lemma pg_now_begin [simp]: "pg_now tm (pg_begin tm c) = pg_now tm c"
  by (cases c) (simp_all add: pg_now_def pg_begin_def)

lemma signup_created:
  assumes "signup V env c s r = ((201, m), c', s')"
  shows "select_users_by_email (users s) (normalizeEmail V (req_email r)) = [] \<and>
     s' = signed_up V env c s r \<and> c' = idle \<and>
     signupValidation V r = [] \<and> fits_users (new_user_row V env s r) \<and> \<not> mail_fails env"
  using assms
  by (auto simp: signup_def Let_def sanitized_def signup_catch_def insert_user_def insert_otp_def
      signed_up_def new_user_row_def new_otp_row_def rollback_def
      split: if_splits prod.splits sum.splits)

lemma signup_state:
  "(snd (snd (signup V env c s r)) = signed_up V env c s r \<and>
      select_users_by_email (users s) (normalizeEmail V (req_email r)) = []) \<or>
   same_tables s (snd (snd (signup V env c s r)))"
  by (auto simp: signup_def Let_def sanitized_def insert_user_def insert_otp_def
      signed_up_def new_user_row_def new_otp_row_def rollback_def same_tables_def
      split: if_splits prod.splits sum.splits)

lemma wf_db_same_tables: "wf_db s \<Longrightarrow> same_tables s s' \<Longrightarrow> wf_db s'"
  by (auto simp: wf_db_def pk_users_def unique_email_def otp_ok_def same_tables_def list_all_iff)

lemma select_users_by_email_empty:
  "select_users_by_email rows e = [] \<longleftrightarrow> e \<notin> email ` set rows"
  by (auto simp: select_users_by_email_def filter_empty_conv)

lemma wf_db_signed_up:
  assumes "wf_db s" and "select_users_by_email (users s) (normalizeEmail V (req_email r)) = []"
  shows "wf_db (signed_up V env c s r)"
proof -
  from assms(2) have fresh: "normalizeEmail V (req_email r) \<notin> email ` set (users s)"
    by (simp add: select_users_by_email_empty)
  from assms(1) have ids: "\<forall>u\<in>set (users s). u_id u < users_id_seq s"
    and oids: "\<forall>ov\<in>set (otp_verifications s). o_id ov < otp_id_seq s \<and> o_user_id ov \<in> u_id ` set (users s)"
    by (auto simp: wf_db_def pk_users_def otp_ok_def list_all_iff)
  have "pk_users (signed_up V env c s r)"
    using assms(1) ids by (auto simp: wf_db_def pk_users_def signed_up_def new_user_row_def list_all_iff)
  moreover have "unique_email (signed_up V env c s r)"
    using assms(1) fresh by (auto simp: wf_db_def unique_email_def signed_up_def new_user_row_def)
  moreover have "otp_ok (signed_up V env c s r)"
    using assms(1) ids oids
    by (fastforce simp: wf_db_def otp_ok_def signed_up_def new_user_row_def new_otp_row_def list_all_iff)
  ultimately show ?thesis
    by (simp add: wf_db_def)
qed

lemma wf_db_signup: "wf_db s \<Longrightarrow> wf_db (snd (snd (signup V env c s r)))"
  using signup_state [of V env c s r] by (auto intro: wf_db_signed_up wf_db_same_tables)


lemma verified_rows_ids:
  "map u_id (map (\<lambda>u. if email u = e then u\<lparr>is_verified := True\<rparr> else u) rows) = map u_id rows"
  by (induction rows) auto

lemma verified_rows_emails:
  "map email (map (\<lambda>u. if email u = e then u\<lparr>is_verified := True\<rparr> else u) rows) = map email rows"
  by (induction rows) auto

lemma verified_rows_types:
  "map user_type (map (\<lambda>u. if email u = e then u\<lparr>is_verified := True\<rparr> else u) rows) = map user_type rows"
  by (induction rows) auto

lemma redeemed_users:
  "map u_id (users (delete_otp (set_verified s e) i)) = map u_id (users s) \<and>
   map email (users (delete_otp (set_verified s e) i)) = map email (users s)"
  by (simp add: delete_otp_def set_verified_def verified_rows_ids verified_rows_emails)

lemma redeemed_others:
  "otp_verifications (delete_otp (set_verified s e) i) = filter (\<lambda>ov. o_id ov \<noteq> i) (otp_verifications s) \<and>
   session_bookings (delete_otp (set_verified s e) i) = session_bookings s \<and>
   users_id_seq (delete_otp (set_verified s e) i) = users_id_seq s \<and>
   otp_id_seq (delete_otp (set_verified s e) i) = otp_id_seq s \<and>
   bookings_id_seq (delete_otp (set_verified s e) i) = bookings_id_seq s"
  by (simp add: delete_otp_def set_verified_def)

lemma wf_db_redeemed:
  assumes "wf_db s"
  shows "wf_db (delete_otp (set_verified s e) i)"
proof -
  let ?s' = "delete_otp (set_verified s e) i"
  have ids: "set (map u_id (users ?s')) = set (map u_id (users s))"
    by (simp only: redeemed_users)
  have "list_all (\<lambda>u. u_id u < users_id_seq s) (users ?s')"
    using assms ids unfolding wf_db_def pk_users_def list_all_iff by (metis (no_types, lifting) image_iff list.set_map)
  then have "pk_users ?s'"
    using assms by (simp add: wf_db_def pk_users_def redeemed_users redeemed_others)
  moreover have "unique_email ?s'"
    using assms by (simp add: wf_db_def unique_email_def redeemed_users)
  moreover have "otp_ok ?s'"
    using assms ids
    by (auto simp: wf_db_def otp_ok_def redeemed_others list_all_iff distinct_map_filter simp del: set_map)
  ultimately show ?thesis
    by (simp add: wf_db_def)
qed

lemma wf_db_verify_otp: "wf_db s \<Longrightarrow> wf_db (snd (snd (verify_otp tm c s e code)))"
  by (auto simp: verify_otp_def wf_db_redeemed split: list.splits)

lemma book_state:
  "same_tables s (snd (book time_in notify s user r)) \<or>
   (\<exists>t. time_in (req_timeSlot r) = Some t \<and>
      count_bookings s (req_speakerId r) (req_date r) t = 0 \<and>
      snd (book time_in notify s user r) =
        s\<lparr>session_bookings := session_bookings s @
             [\<lparr>b_id = bookings_id_seq s, speaker_id = req_speakerId r, b_user_id = userId user,
               booking_date = req_date r, time_slot = t, status = ''confirmed''\<rparr>],
          bookings_id_seq := bookings_id_seq s + 1\<rparr>)"
  by (auto simp: book_def Let_def insert_booking_def rollback_def same_tables_def
      split: option.splits prod.splits sum.splits if_splits)

lemma wf_db_book:
  assumes "wf_db s"
  shows "wf_db (snd (book time_in notify s user r))"
  using book_state [of s time_in notify user r]
proof (elim disjE exE conjE)
  assume "same_tables s (snd (book time_in notify s user r))"
  with assms show ?thesis by (rule wf_db_same_tables)
next
  fix t
  assume "snd (book time_in notify s user r) =
        s\<lparr>session_bookings := session_bookings s @
             [\<lparr>b_id = bookings_id_seq s, speaker_id = req_speakerId r, b_user_id = userId user,
               booking_date = req_date r, time_slot = t, status = ''confirmed''\<rparr>],
          bookings_id_seq := bookings_id_seq s + 1\<rparr>"
  with assms show ?thesis
    by (simp add: wf_db_def pk_users_def unique_email_def otp_ok_def)
qed

lemma count_bookings_zero:
  "count_bookings s sid d t = 0 \<longleftrightarrow> (sid, d, t) \<notin> set (map slot_key (session_bookings s))"
  by (auto simp: count_bookings_def slot_key_def filter_empty_conv)

lemma unique_slots_book: "unique_slots s \<Longrightarrow> unique_slots (snd (book time_in notify s user r))"
  using book_state [of s time_in notify user r]
  by (auto simp: unique_slots_def same_tables_def count_bookings_zero slot_key_def)

lemma unique_slots_signup: "unique_slots s \<Longrightarrow> unique_slots (snd (snd (signup V env c s r)))"
  using signup_state [of V env c s r]
  by (auto simp: unique_slots_def same_tables_def signed_up_def)

lemma unique_slots_verify_otp: "unique_slots s \<Longrightarrow> unique_slots (snd (snd (verify_otp tm c s e code)))"
  by (auto simp: verify_otp_def unique_slots_def redeemed_others split: list.splits)

lemma reachable_invariants: "reachable V time_in s \<Longrightarrow> wf_db s \<and> unique_slots s"
proof (induction rule: reachable.induct)
  case reachable_empty
  show ?case
    by (simp add: wf_db_def pk_users_def unique_email_def otp_ok_def unique_slots_def empty_db_def)
next
  case (reachable_signup s env c r)
  then show ?case by (simp add: wf_db_signup unique_slots_signup)
next
  case (reachable_verify_otp s tm c e code)
  then show ?case by (simp add: wf_db_verify_otp unique_slots_verify_otp)
next
  case (reachable_book s notify user r)
  then show ?case by (simp add: wf_db_book unique_slots_book)
qed


section \<open>Redeeming a verification code\<close>

lemma select_verifications_set:
  "set (select_verifications s t e code) =
     {ov \<in> set (codes_of s e). otp ov = code \<and> expires_at ov > t}"
  by (auto simp: select_verifications_def codes_of_def list_ex_iff)

lemma select_verifications_empty:
  "select_verifications s t e code = [] \<longleftrightarrow> \<not> redeemable s t e code"
proof -
  have "select_verifications s t e code = [] \<longleftrightarrow> set (select_verifications s t e code) = {}"
    by simp
  also have "\<dots> \<longleftrightarrow> \<not> redeemable s t e code"
    unfolding select_verifications_set by (auto simp: redeemable_def list_ex_iff)
  finally show ?thesis .
qed

lemma verify_otp_fails:
  "\<not> redeemable s (pg_now tm c) e code \<Longrightarrow> verify_otp tm c s e code = (InvalidOrExpiredCode, c, s)"
  using select_verifications_empty [of s "pg_now tm c" e code]
  by (simp add: verify_otp_def InvalidOrExpiredCode_def)

lemma verify_otp_succeeds:
  assumes "redeemable s (pg_now tm c) e code"
  shows "\<exists>ov \<in> set (codes_of s e). otp ov = code \<and> pg_now tm c < expires_at ov \<and>
     verify_otp tm c s e code =
       ((200, Message ''Email verified successfully''), idle,
        delete_otp (set_verified s e) (o_id ov))"
proof (cases "select_verifications s (pg_now tm c) e code")
  case Nil
  with assms show ?thesis by (simp add: select_verifications_empty)
next
  case (Cons ov rest)
  then have "ov \<in> set (select_verifications s (pg_now tm c) e code)" by simp
  then have "ov \<in> set (codes_of s e) \<and> otp ov = code \<and> pg_now tm c < expires_at ov"
    by (simp add: select_verifications_set)
  with Cons show ?thesis
    by (auto simp: verify_otp_def)
qed

lemma codes_of_unique:
  assumes "wf_db s" and "ov \<in> set (codes_of s e)" and "ov' \<in> set (codes_of s e)"
  shows "ov' = ov"
proof -
  from assms(2) obtain u where u: "u \<in> set (users s)" "u_id u = o_user_id ov" "email u = e"
    and ov: "ov \<in> set (otp_verifications s)"
    by (auto simp: codes_of_def list_ex_iff)
  from assms(3) obtain u' where u': "u' \<in> set (users s)" "u_id u' = o_user_id ov'" "email u' = e"
    and ov': "ov' \<in> set (otp_verifications s)"
    by (auto simp: codes_of_def list_ex_iff)
  from assms(1) have "inj_on email (set (users s))" and "inj_on o_user_id (set (otp_verifications s))"
    by (simp_all add: wf_db_def unique_email_def otp_ok_def distinct_map)
  with u u' ov ov' show ?thesis
    by (metis inj_onD)
qed

lemma list_ex_verified_rows:
  "list_ex (\<lambda>u. u_id u = i \<and> email u = e')
      (map (\<lambda>u. if email u = e then u\<lparr>is_verified := True\<rparr> else u) rows) =
   list_ex (\<lambda>u. u_id u = i \<and> email u = e') rows"
  by (induction rows) auto

lemma codes_of_redeemed:
  "codes_of (delete_otp (set_verified s e) i) e' = filter (\<lambda>ov. o_id ov \<noteq> i) (codes_of s e')"
  by (auto simp: codes_of_def delete_otp_def set_verified_def list_ex_verified_rows
      intro: filter_cong)

lemma codes_of_redeemed_empty:
  assumes "wf_db s" and "ov \<in> set (codes_of s e)"
  shows "codes_of (delete_otp (set_verified s e) (o_id ov)) e = []"
  using codes_of_unique [OF assms]
  by (auto simp: codes_of_redeemed filter_empty_conv)

lemma verified_rows_flag:
  "list_all (\<lambda>u. email u = e \<longrightarrow> is_verified u)
     (map (\<lambda>u. if email u = e then u\<lparr>is_verified := True\<rparr> else u) rows)"
  by (induction rows) auto

lemma wf_db_ann_db: "wf_db ann_db"
  by (simp add: wf_db_def pk_users_def unique_email_def otp_ok_def example_defs)

text \<open>
  A redemption that runs alone, in a state that satisfies the constraints of
  the tables: if the account has a code of the given value that the client's
  \<^verbatim>\<open>NOW()\<close> has not passed, it answers 200, sets the flag of the
  account and of no other and leaves the account without a code, so that
  every later redemption of the code fails; if not, it fails and changes
  nothing.
\<close>

lemma redeem_in_turn:
  assumes "wf_db s" and "redeemable s (pg_now tm c) e code"
  shows "fst (verify_otp tm c s e code) = (200, Message ''Email verified successfully'') \<and>
         users (snd (snd (verify_otp tm c s e code))) =
           map (\<lambda>u. if email u = e then u\<lparr>is_verified := True\<rparr> else u) (users s) \<and>
         codes_of (snd (snd (verify_otp tm c s e code))) e = [] \<and>
         (\<forall>tm' c'. verify_otp tm' c' (snd (snd (verify_otp tm c s e code))) e code =
            (InvalidOrExpiredCode, c', snd (snd (verify_otp tm c s e code))))"
proof -
  from verify_otp_succeeds [OF assms(2)] obtain ov where ov: "ov \<in> set (codes_of s e)"
    and v: "verify_otp tm c s e code =
       ((200, Message ''Email verified successfully''), idle,
        delete_otp (set_verified s e) (o_id ov))"
    by blast
  let ?s' = "delete_otp (set_verified s e) (o_id ov)"
  have none: "codes_of ?s' e = []"
    using assms(1) ov by (rule codes_of_redeemed_empty)
  then have "\<not> redeemable ?s' (pg_now tm' c') e code" for tm' c'
    by (simp add: redeemable_def)
  then have again: "verify_otp tm' c' ?s' e code = (InvalidOrExpiredCode, c', ?s')" for tm' c'
    by (rule verify_otp_fails)
  have flag: "users ?s' = map (\<lambda>u. if email u = e then u\<lparr>is_verified := True\<rparr> else u) (users s)"
    by (simp add: delete_otp_def set_verified_def)
  from none again flag show ?thesis
    unfolding v by simp
qed

lemmas verify_defs = verify_step_def verify_start_def uncommitted_update_def verify_otp_def
  pg_now_def pg_begin_def idle_def

text \<open>
  A verification handler that runs its four statements with nothing in
  between does what the function \<open>verify_otp\<close> says.
\<close>

lemma verify_alone:
  assumes "\<not> (uncommitted_update q \<and> vp_email q = e)"
  shows "interleave verify_step [True, True, True, True] (s, verify_start tm c e code, q) =
     (snd (snd (verify_otp tm c s e code)),
      (verify_start tm c e code)
        \<lparr>vp_client := fst (snd (verify_otp tm c s e code)),
          vp_pc := Verify_Done (fst (verify_otp tm c s e code))\<rparr>, q)"
proof (cases "select_verifications s (pg_now tm c) e code")
  case Nil
  then show ?thesis
    by (simp add: verify_step_def verify_start_def verify_otp_def)
next
  case (Cons verification rest)
  then show ?thesis
    using assms by (simp add: verify_step_def verify_start_def verify_otp_def)
qed

text \<open>
  C2. A redemption that runs alone is single-use and atomic (lemma
  \<open>redeem_in_turn\<close>), but the handler does not keep the claim in two
  cases. (1) Its \<^verbatim>\<open>SELECT\<close> runs before \<^verbatim>\<open>BEGIN\<close>
  and takes no lock: when two redemptions of Ann's code overlap, both find
  the code before either deletes it, and both answer 200
  \<^verbatim>\<open>Email verified successfully\<close>; the second one does not fail
  with InvalidOrExpiredCode. (2) The code is compared with the
  \<^verbatim>\<open>NOW()\<close> of the client: a signup that answers
  \<^verbatim>\<open>Email already registered\<close> 5 seconds before Ann's code
  expires leaves its client inside a transaction, and on that client the
  code is redeemed 3 seconds after it has expired; on a client with no
  transaction open the same call fails with InvalidOrExpiredCode and changes
  nothing. A lookup that fails leaves the client in its transaction, whenever
  it comes.
\<close>

theorem redeemCode_twice_and_expired:
  "interleave verify_step [True, False, True, True, True, False, False, False]
     (ann_db, verify_start (minutes 5) idle ''ann@x.io'' ''550000'',
      verify_start (minutes 6) idle ''ann@x.io'' ''550000'') =
     (verified_db,
      \<lparr>vp_at = minutes 5, vp_client = idle, vp_email = ''ann@x.io'', vp_code = ''550000'',
        vp_pc = Verify_Done (200, Message ''Email verified successfully'')\<rparr>,
      \<lparr>vp_at = minutes 6, vp_client = idle, vp_email = ''ann@x.io'', vp_code = ''550000'',
        vp_pc = Verify_Done (200, Message ''Email verified successfully'')\<rparr>) \<and>
   map expires_at (codes_of ann_db ''ann@x.io'') = [minutes 60] \<and>
   signup V0 (env0\<lparr>called_at := minutes 60 - seconds 5\<rparr>) idle ann_db ann2 =
     (DuplicateIdentity, Some (minutes 60 - seconds 5), ann_db) \<and>
   verify_otp (minutes 60 + seconds 3) (Some (minutes 60 - seconds 5)) ann_db ''ann@x.io'' ''550000'' =
     ((200, Message ''Email verified successfully''), idle, verified_db) \<and>
   verify_otp (minutes 60 + seconds 3) idle ann_db ''ann@x.io'' ''550000'' =
     (InvalidOrExpiredCode, idle, ann_db) \<and>
   (\<forall>tm started. verify_otp tm (Some started) ann_db ''ann@x.io'' ''000000'' =
      (InvalidOrExpiredCode, Some started, ann_db))"
proof -
  have race: "interleave verify_step [True, False, True, True, True, False, False, False]
     (ann_db, verify_start (minutes 5) idle ''ann@x.io'' ''550000'',
      verify_start (minutes 6) idle ''ann@x.io'' ''550000'') =
     (verified_db,
      \<lparr>vp_at = minutes 5, vp_client = idle, vp_email = ''ann@x.io'', vp_code = ''550000'',
        vp_pc = Verify_Done (200, Message ''Email verified successfully'')\<rparr>,
      \<lparr>vp_at = minutes 6, vp_client = idle, vp_email = ''ann@x.io'', vp_code = ''550000'',
        vp_pc = Verify_Done (200, Message ''Email verified successfully'')\<rparr>)"
    by (simp add: verify_defs minutes_def example_defs sql_defs)
  have expiry: "map expires_at (codes_of ann_db ''ann@x.io'') = [minutes 60]"
    by (simp add: codes_of_def minutes_def example_defs)
  have dup: "signup V0 (env0\<lparr>called_at := minutes 60 - seconds 5\<rparr>) idle ann_db ann2 =
     (DuplicateIdentity, Some (minutes 60 - seconds 5), ann_db)"
    by (simp add: signup_defs seconds_def Let_def example_defs js_defs sql_defs taxonomy_defs)
  have stale: "verify_otp (minutes 60 + seconds 3) (Some (minutes 60 - seconds 5)) ann_db
      ''ann@x.io'' ''550000'' = ((200, Message ''Email verified successfully''), idle, verified_db)"
    by (simp add: verify_defs minutes_def seconds_def example_defs sql_defs)
  have fresh: "verify_otp (minutes 60 + seconds 3) idle ann_db ''ann@x.io'' ''550000'' =
     (InvalidOrExpiredCode, idle, ann_db)"
    by (simp add: verify_defs minutes_def seconds_def example_defs sql_defs taxonomy_defs)
  have kept: "\<forall>tm started. verify_otp tm (Some started) ann_db ''ann@x.io'' ''000000'' =
      (InvalidOrExpiredCode, Some started, ann_db)"
    by (simp add: verify_defs example_defs sql_defs taxonomy_defs)
  from race expiry dup stale fresh kept show ?thesis
    by (intro conjI)
qed


section \<open>Expiry of a verification code\<close>

lemma codes_of_signed_up:
  assumes "wf_db s" and "select_users_by_email (users s) (normalizeEmail V (req_email r)) = []"
  shows "codes_of (signed_up V env c s r) (normalizeEmail V (req_email r)) = [new_otp_row env c s]"
proof -
  let ?e = "normalizeEmail V (req_email r)"
  from assms(2) have "?e \<notin> email ` set (users s)"
    by (simp add: select_users_by_email_empty)
  then have fresh: "\<forall>u \<in> set (users s). email u \<noteq> ?e"
    by (metis imageI)
  from assms(1) have owners: "\<forall>ov \<in> set (otp_verifications s). o_user_id ov \<in> u_id ` set (users s)"
    and ids: "\<forall>u \<in> set (users s). u_id u < users_id_seq s"
    by (simp_all add: wf_db_def otp_ok_def pk_users_def list_all_iff)
  have old: "\<forall>ov \<in> set (otp_verifications s). o_user_id ov \<noteq> users_id_seq s"
  proof
    fix ov
    assume "ov \<in> set (otp_verifications s)"
    with owners obtain u where "u \<in> set (users s)" and "o_user_id ov = u_id u"
      by blast
    with ids show "o_user_id ov \<noteq> users_id_seq s"
      by (metis less_irrefl)
  qed
  have "filter (\<lambda>ov. list_ex (\<lambda>u. u_id u = o_user_id ov \<and> email u = ?e)
            (users s @ [new_user_row V env s r])) (otp_verifications s) = []"
    using fresh old by (auto simp: filter_empty_conv list_ex_iff new_user_row_def)
  then show ?thesis
    by (simp add: codes_of_def signed_up_def new_user_row_def new_otp_row_def)
qed

text \<open>
  The code a successful signup stores expires one hour after the
  \<^verbatim>\<open>NOW()\<close> of the signup's client, and a redemption accepts it
  exactly when the \<^verbatim>\<open>NOW()\<close> of its own client is before that. On
  clients with no transaction open both are the times of the calls.
\<close>

lemma otp_accepted_iff:
  assumes "wf_db s" and "signup V env c s r = ((201, m), c', s')"
  shows "otp_verifications s' = otp_verifications s @ [new_otp_row env c s] \<and>
         otp (new_otp_row env c s) = new_otp (otp_number env) \<and>
         expires_at (new_otp_row env c s) = pg_now (called_at env) c + interval_1_hour \<and>
         (\<forall>tm cv. fst (verify_otp tm cv s' (normalizeEmail V (req_email r)) (new_otp (otp_number env))) =
                (200, Message ''Email verified successfully'')
            \<longleftrightarrow> pg_now tm cv < pg_now (called_at env) c + interval_1_hour)"
proof -
  let ?e = "normalizeEmail V (req_email r)" and ?code = "new_otp (otp_number env)"
  let ?x = "pg_now (called_at env) c + interval_1_hour"
  from signup_created [OF assms(2)]
  have fresh: "select_users_by_email (users s) ?e = []" and s': "s' = signed_up V env c s r"
    by simp_all
  have codes: "codes_of s' ?e = [new_otp_row env c s]"
    unfolding s' using assms(1) fresh by (rule codes_of_signed_up)
  have red: "redeemable s' t ?e ?code \<longleftrightarrow> t < ?x" for t
    by (simp add: redeemable_def codes new_otp_row_def)
  have ok: "fst (verify_otp tm cv s' ?e ?code) = (200, Message ''Email verified successfully'')"
    if "pg_now tm cv < ?x" for tm cv
  proof -
    from that have "redeemable s' (pg_now tm cv) ?e ?code"
      by (simp add: red)
    from verify_otp_succeeds [OF this] show ?thesis
      by auto
  qed
  have ko: "verify_otp tm cv s' ?e ?code = (InvalidOrExpiredCode, cv, s')"
    if "\<not> pg_now tm cv < ?x" for tm cv
  proof -
    from that have "\<not> redeemable s' (pg_now tm cv) ?e ?code"
      by (simp add: red)
    then show ?thesis
      by (rule verify_otp_fails)
  qed
  have c1: "otp_verifications s' = otp_verifications s @ [new_otp_row env c s]"
    by (simp add: s' signed_up_def)
  have c2: "otp (new_otp_row env c s) = new_otp (otp_number env)"
    and c3: "expires_at (new_otp_row env c s) = ?x"
    by (simp_all add: new_otp_row_def)
  have c4: "\<forall>tm cv. fst (verify_otp tm cv s' ?e ?code) = (200, Message ''Email verified successfully'')
      \<longleftrightarrow> pg_now tm cv < ?x"
  proof (intro allI iffI)
    fix tm cv
    assume a: "fst (verify_otp tm cv s' ?e ?code) = (200, Message ''Email verified successfully'')"
    show "pg_now tm cv < ?x"
    proof (rule ccontr)
      assume "\<not> pg_now tm cv < ?x"
      from ko [OF this] a show False
        by (simp add: InvalidOrExpiredCode_def)
    qed
  qed (rule ok)
  from c1 c2 c3 c4 show ?thesis
    by (intro conjI)
qed

lemma otp_expiry_on_idle_clients:
  assumes "wf_db s" and "signup V env idle s r = ((201, m), c', s')"
  shows "fst (verify_otp (called_at env + minutes 61) idle s' (normalizeEmail V (req_email r))
            (new_otp (otp_number env))) \<noteq> (200, Message ''Email verified successfully'') \<and>
         fst (verify_otp (called_at env + minutes 59) idle s' (normalizeEmail V (req_email r))
            (new_otp (otp_number env))) = (200, Message ''Email verified successfully'')"
  using otp_accepted_iff [OF assms]
  by (simp add: pg_now_def idle_def interval_1_hour_def minutes_def)

text \<open>
  C6. The expiry of a code is not its issuance time plus one hour, and the
  two redemptions of the claim come out the other way round, once a signup
  has answered \<^verbatim>\<open>Email already registered\<close>: that path returns
  after \<^verbatim>\<open>BEGIN\<close> without \<^verbatim>\<open>COMMIT\<close> or
  \<^verbatim>\<open>ROLLBACK\<close>, the client goes back to the pool inside its
  transaction, and \<^verbatim>\<open>NOW()\<close> on it stays at the start of that
  transaction; a lookup of a wrong code on the client leaves it there,
  whenever it comes. Ann signs up at time 0. A second signup for her address,
  10 minutes later, leaves its client in a transaction. Bob's signup, 12
  minutes after time 0 on that client, stores a code that expires 70 minutes
  after time 0, which is 58 minutes after it is issued; redeeming it 59
  minutes after issuance, on a client with no transaction open, fails with
  InvalidOrExpiredCode. On a client left in a transaction 59 minutes after
  time 0, Ann's code, which expires 60 minutes after time 0, is accepted 61
  minutes after its issuance.
\<close>

theorem otp_expiry_follows_stale_transaction:
  "signup V0 env0 idle empty_db ann =
     ((201, Message ''User created successfully. Please verify your email.''), idle, ann_db) \<and>
   map expires_at (codes_of ann_db ''ann@x.io'') = [called_at env0 + minutes 60] \<and>
   signup V0 (env0\<lparr>called_at := minutes 10\<rparr>) idle ann_db ann2 =
     (DuplicateIdentity, Some (minutes 10), ann_db) \<and>
   (\<forall>tm started. verify_otp tm (Some started) ann_db ''ann@x.io'' ''000000'' =
      (InvalidOrExpiredCode, Some started, ann_db)) \<and>
   signup V0 (env0\<lparr>called_at := minutes 12\<rparr>) (Some (minutes 10)) ann_db bob =
     ((201, Message ''User created successfully. Please verify your email.''), idle, late_db) \<and>
   map expires_at (codes_of late_db ''bob@x.io'') = [minutes 12 + minutes 58] \<and>
   verify_otp (minutes 12 + minutes 59) idle late_db ''bob@x.io'' ''550000'' =
     (InvalidOrExpiredCode, idle, late_db) \<and>
   signup V0 (env0\<lparr>called_at := minutes 59\<rparr>) idle ann_db ann2 =
     (DuplicateIdentity, Some (minutes 59), ann_db) \<and>
   verify_otp (called_at env0 + minutes 61) (Some (minutes 59)) ann_db ''ann@x.io'' ''550000'' =
     ((200, Message ''Email verified successfully''), idle, verified_db)"
proof -
  have first: "signup V0 env0 idle empty_db ann =
     ((201, Message ''User created successfully. Please verify your email.''), idle, ann_db)"
    by (simp add: signup_defs decimal.simps Let_def example_defs js_defs sql_defs)
  have ann_expiry: "map expires_at (codes_of ann_db ''ann@x.io'') = [called_at env0 + minutes 60]"
    by (simp add: codes_of_def minutes_def example_defs)
  have dup: "signup V0 (env0\<lparr>called_at := minutes 10\<rparr>) idle ann_db ann2 =
     (DuplicateIdentity, Some (minutes 10), ann_db)"
    by (simp add: signup_defs Let_def example_defs js_defs sql_defs taxonomy_defs)
  have kept: "\<forall>tm started. verify_otp tm (Some started) ann_db ''ann@x.io'' ''000000'' =
      (InvalidOrExpiredCode, Some started, ann_db)"
    by (simp add: verify_defs example_defs sql_defs taxonomy_defs)
  have late: "signup V0 (env0\<lparr>called_at := minutes 12\<rparr>) (Some (minutes 10)) ann_db bob =
     ((201, Message ''User created successfully. Please verify your email.''), idle, late_db)"
    by (simp add: signup_defs decimal.simps Let_def example_defs js_defs sql_defs)
  have bob_expiry: "map expires_at (codes_of late_db ''bob@x.io'') = [minutes 12 + minutes 58]"
    by (simp add: codes_of_def minutes_def example_defs)
  have early: "verify_otp (minutes 12 + minutes 59) idle late_db ''bob@x.io'' ''550000'' =
     (InvalidOrExpiredCode, idle, late_db)"
    by (simp add: verify_defs minutes_def example_defs sql_defs taxonomy_defs)
  have dup': "signup V0 (env0\<lparr>called_at := minutes 59\<rparr>) idle ann_db ann2 =
     (DuplicateIdentity, Some (minutes 59), ann_db)"
    by (simp add: signup_defs Let_def example_defs js_defs sql_defs taxonomy_defs)
  have stale: "verify_otp (called_at env0 + minutes 61) (Some (minutes 59)) ann_db ''ann@x.io''
      ''550000'' = ((200, Message ''Email verified successfully''), idle, verified_db)"
    by (simp add: verify_defs minutes_def example_defs sql_defs)
  from first ann_expiry dup kept late bob_expiry early dup' stale show ?thesis
    by (intro conjI)
qed

section \<open>A notification that fails after the commit\<close>

text \<open>
  C8, as stated: after the commit, a failure of the verification mail, of the
  confirmation mail or of the calendar invite is reported as a partial
  success and not as a failure of the operation. The handlers have one
  \<^verbatim>\<open>catch\<close> block each, which answers 500: Ann's signup with a
  failing mail transport stores her account and her code and answers 500
  \<^verbatim>\<open>Error creating user\<close>; her booking with a failing calendar API
  stores the reservation and answers 500.
\<close>

theorem notification_failure_is_reported_as_failure:
  "signup V0 (env0\<lparr>mail_fails := True\<rparr>) idle empty_db ann =
     ((500, Error ''Error creating user''), idle, ann_db) \<and>
   \<not> success_class (500, Error ''Error creating user'') \<and>
   book time_in_hhmm (Some CalendarError) demo_db ann_claims (slot_req ''10:00'') =
     ((500, ErrorOf CalendarError),
      demo_db\<lparr>session_bookings := [booked_row 1 10 0], bookings_id_seq := 2\<rparr>) \<and>
   \<not> success_class (500, ErrorOf CalendarError)"
  by (simp add: signup_defs decimal.simps Let_def example_defs js_defs sql_defs book_def success_class_def)

text \<open>
  C8, amended: a signup or a booking that answers with success when the
  notification is delivered commits the same rows when the notification
  fails (nothing is rolled back), and answers 500 then: a signup with
  \<^verbatim>\<open>Error creating user\<close>, a booking with the message of the failure.
\<close>

theorem notification_failure_keeps_commit:
  "(signup V (env\<lparr>mail_fails := False\<rparr>) c s r = ((201, m), c', s') \<longrightarrow>
      signup V (env\<lparr>mail_fails := True\<rparr>) c s r =
        ((500, Error ''Error creating user''), c', s')) \<and>
   (book time_in None s2 user b = ((200, m2), s2') \<longrightarrow>
      book time_in (Some error) s2 user b = ((500, ErrorOf error), s2'))"
proof (intro conjI impI)
  assume "signup V (env\<lparr>mail_fails := False\<rparr>) c s r = ((201, m), c', s')"
  then show "signup V (env\<lparr>mail_fails := True\<rparr>) c s r =
      ((500, Error ''Error creating user''), c', s')"
    by (auto simp: signup_def Let_def signup_catch_def split: if_splits prod.splits sum.splits)
next
  assume "book time_in None s2 user b = ((200, m2), s2')"
  then show "book time_in (Some error) s2 user b = ((500, ErrorOf error), s2')"
    by (auto simp: book_def Let_def split: if_splits prod.splits sum.splits option.splits)
qed

theorem notification_failure_keeps_commit_witness:
  "signup V0 (env0\<lparr>mail_fails := True\<rparr>) idle empty_db ann =
     ((500, Error ''Error creating user''), idle, ann_db) \<and>
   book time_in_hhmm (Some MailError) demo_db ann_claims (slot_req ''10:00'') =
     ((500, ErrorOf MailError),
      demo_db\<lparr>session_bookings := [booked_row 1 10 0], bookings_id_seq := 2\<rparr>)"
proof -
  have "env0\<lparr>mail_fails := False\<rparr> = env0"
    by (simp add: env0_def)
  with signup_ann book_ten notification_failure_keeps_commit [where V = V0 and env = env0
      and c = idle and s = empty_db and r = ann and c' = idle and s' = ann_db and time_in = time_in_hhmm and ?s2.0 = demo_db
      and user = ann_claims and b = "slot_req ''10:00''" and error = MailError]
  show ?thesis
    by simp
qed

section \<open>A booking between accounts of the wrong roles\<close>

lemma length_filter_key:
  "distinct (map f xs) \<Longrightarrow> length (filter (\<lambda>x. f x = a) xs) \<le> 1"
proof (induction xs)
  case Nil
  then show ?case by simp
next
  case (Cons x xs)
  show ?case
  proof (cases "f x = a")
    case True
    with Cons.prems have "a \<notin> f ` set xs" by simp
    then have "filter (\<lambda>x. f x = a) xs = []"
      unfolding filter_empty_conv by (metis imageI)
    with True show ?thesis by simp
  next
    case False
    with Cons show ?thesis by simp
  qed
qed

lemma length_filter_disj:
  "length (filter (\<lambda>x. P x \<or> Q x) xs) \<le> length (filter P xs) + length (filter Q xs)"
  by (induction xs) auto

lemma length_filter_two_ids:
  assumes "distinct (map f xs)"
  shows "length (filter (\<lambda>x. f x = a \<or> f x = b) xs) \<le> 2"
  using length_filter_disj [of "\<lambda>x. f x = a" "\<lambda>x. f x = b" xs]
    length_filter_key [OF assms, of a] length_filter_key [OF assms, of b]
  by linarith

lemma find_two_kinds:
  assumes "\<And>x. \<not> (P x \<and> Q x)" and "length rows \<le> 2"
    and "\<not> (length rows = 2 \<and> length (filter P rows) = 1 \<and> length (filter Q rows) = 1)"
  shows "find P rows = None \<or> find Q rows = None"
proof (cases rows)
  case Nil
  then show ?thesis by simp
next
  case (Cons x xs)
  note rows = this
  show ?thesis
  proof (cases xs)
    case Nil
    with rows assms(1) [of x] show ?thesis by auto
  next
    case (Cons y ys)
    with rows assms(2) have "rows = [x, y]" by simp
    with assms(3) assms(1) [of x] assms(1) [of y] show ?thesis
      by (auto split: if_splits)
  qed
qed

lemma find_roles:
  assumes "length rows \<le> 2" and "\<not> one_user_one_speaker rows"
  shows "find (\<lambda>e. user_type e = ''user'') rows = None \<or>
         find (\<lambda>e. user_type e = ''speaker'') rows = None"
proof (rule find_two_kinds)
  show "\<not> (user_type x = ''user'' \<and> user_type x = ''speaker'')" for x :: user_row
    by auto
  show "length rows \<le> 2" by fact
  from assms(2) show "\<not> (length rows = 2 \<and>
      length (filter (\<lambda>e. user_type e = ''user'') rows) = 1 \<and>
      length (filter (\<lambda>e. user_type e = ''speaker'') rows) = 1)"
    by (simp add: one_user_one_speaker_def)
qed

lemma insert_booking_result:
  "insert_booking s sid uid d t st =
     (if filter (\<lambda>u. u_id u = sid) (users s) = [] \<or> filter (\<lambda>u. u_id u = uid) (users s) = []
      then (Inl foreign_key_violation, s\<lparr>bookings_id_seq := bookings_id_seq s + 1\<rparr>)
      else (Inr (bookings_id_seq s),
            s\<lparr>bookings_id_seq := bookings_id_seq s + 1,
              session_bookings := session_bookings s @
                [\<lparr>b_id = bookings_id_seq s, speaker_id = sid, b_user_id = uid, booking_date = d,
                  time_slot = t, status = st\<rparr>]\<rparr>))"
  by (simp add: insert_booking_def Let_def)

lemma select_emails_bookings:
  "select_emails (s\<lparr>bookings_id_seq := n, session_bookings := bs\<rparr>) a b = select_emails s a b"
  by (simp add: select_emails_def)

lemma same_tables_rollback:
  "users_id_seq s \<le> users_id_seq s1 \<Longrightarrow> otp_id_seq s \<le> otp_id_seq s1 \<Longrightarrow>
   bookings_id_seq s \<le> bookings_id_seq s1 \<Longrightarrow> same_tables s (rollback s s1)"
  by (simp add: same_tables_def rollback_def)

text \<open>
  C10. A booking that passes the test of the hour, for a free slot, whose
  caller and target are not one account of role \<^verbatim>\<open>user\<close> and one of
  role \<^verbatim>\<open>speaker\<close>, is answered with 500 and leaves every table as
  it was: the reservation inserted for the free slot is rolled back. When
  both accounts exist the error is the \<^verbatim>\<open>TypeError\<close> of the email
  lookup; when one does not, the \<^verbatim>\<open>INSERT\<close> has already failed on its
  foreign key.
\<close>

theorem book_role_mismatch_rolls_back:
  assumes "pk_users s"
    and "\<not> hour_out_of_range (parseInt (split_colon_0 (req_timeSlot r)))"
    and "time_in (req_timeSlot r) = Some t"
    and "count_bookings s (req_speakerId r) (req_date r) t = 0"
    and "\<not> one_user_one_speaker (select_emails s (userId user) (req_speakerId r))"
  shows "fst (book time_in notify s user r) =
           (500, ErrorOf (if filter (\<lambda>u. u_id u = req_speakerId r) (users s) = [] \<or>
                             filter (\<lambda>u. u_id u = userId user) (users s) = []
                          then foreign_key_violation else TypeError)) \<and>
         same_tables s (snd (book time_in notify s user r))"
proof -
  let ?rows = "select_emails s (userId user) (req_speakerId r)"
  let ?fk = "filter (\<lambda>u. u_id u = req_speakerId r) (users s) = [] \<or>
      filter (\<lambda>u. u_id u = userId user) (users s) = []"
  let ?s1 = "s\<lparr>bookings_id_seq := bookings_id_seq s + 1\<rparr>"
  let ?s2 = "s\<lparr>bookings_id_seq := bookings_id_seq s + 1,
      session_bookings := session_bookings s @
        [\<lparr>b_id = bookings_id_seq s, speaker_id = req_speakerId r, b_user_id = userId user,
          booking_date = req_date r, time_slot = t, status = ''confirmed''\<rparr>]\<rparr>"
  from assms(1) have "length ?rows \<le> 2"
    by (simp add: select_emails_def pk_users_def length_filter_two_ids)
  from find_roles [OF this assms(5)]
  have none: "find (\<lambda>e. user_type e = ''user'') ?rows = None \<or>
      find (\<lambda>e. user_type e = ''speaker'') ?rows = None" .
  show ?thesis
  proof (cases ?fk)
    case True
    then have "book time_in notify s user r = ((500, ErrorOf foreign_key_violation), rollback s ?s1)"
      using assms(2-4) by (simp add: book_def insert_booking_result)
    with True show ?thesis
      by (simp add: same_tables_rollback)
  next
    case False
    with none assms(2-4)
    have "book time_in notify s user r = ((500, ErrorOf TypeError), rollback s ?s2)"
      by (cases "find (\<lambda>e. user_type e = ''user'') ?rows";
          cases "find (\<lambda>e. user_type e = ''speaker'') ?rows")
         (simp_all add: book_def insert_booking_result select_emails_bookings Let_def)
    with False show ?thesis
      by (auto simp: same_tables_rollback)
  qed
qed

theorem book_role_mismatch_rolls_back_witness:
  "pk_users demo_db \<and>
   \<not> one_user_one_speaker (select_emails demo_db 1 1) \<and>
   fst (book time_in_hhmm None demo_db ann_claims
          \<lparr>req_speakerId = 1, req_date = 20072, req_timeSlot = ''10:00''\<rparr>) = (500, ErrorOf TypeError) \<and>
   same_tables demo_db (snd (book time_in_hhmm None demo_db ann_claims
          \<lparr>req_speakerId = 1, req_date = 20072, req_timeSlot = ''10:00''\<rparr>))"
proof -
  let ?r = "\<lparr>req_speakerId = 1, req_date = 20072, req_timeSlot = ''10:00''\<rparr>"
  have pk: "pk_users demo_db"
    by (simp add: pk_users_def example_defs)
  have hour: "\<not> hour_out_of_range (parseInt (split_colon_0 (req_timeSlot ?r)))"
    by (simp add: js_defs)
  have t: "time_in_hhmm (req_timeSlot ?r) = Some \<lparr>hh = 10, mi = 0, usec = 0\<rparr>"
    by (simp add: js_defs)
  have free: "count_bookings demo_db (req_speakerId ?r) (req_date ?r) \<lparr>hh = 10, mi = 0, usec = 0\<rparr> = 0"
    by (simp add: count_bookings_def demo_db_def)
  have roles: "\<not> one_user_one_speaker (select_emails demo_db (userId ann_claims) (req_speakerId ?r))"
    by (simp add: one_user_one_speaker_def select_emails_def example_defs)
  note T = book_role_mismatch_rolls_back [where s = demo_db and r = ?r and time_in = time_in_hhmm
      and t = "\<lparr>hh = 10, mi = 0, usec = 0\<rparr>" and user = ann_claims and notify = None]
  from T [OF pk hour t free roles] pk roles
  show ?thesis
    by (simp add: example_defs)
qed


section \<open>Two bookings of one slot at the same time\<close>

lemmas race_defs = book_step_def book_next_def book_start_def signup_step_def signup_start_def
  uncommitted_users_def

text \<open>
  A booking handler that runs its five statements with nothing in between
  does what the function \<open>book\<close> says.
\<close>

lemma rollback_bookings:
  "rollback s (s\<lparr>bookings_id_seq := n\<rparr>) = s\<lparr>bookings_id_seq := n\<rparr>"
  "rollback s (s\<lparr>bookings_id_seq := n, session_bookings := bs\<rparr>) = s\<lparr>bookings_id_seq := n\<rparr>"
  by (simp_all add: rollback_def)

lemma count_bookings_seq:
  "count_bookings (s\<lparr>bookings_id_seq := n\<rparr>) sid d t = count_bookings s sid d t"
  by (simp add: count_bookings_def)

lemma select_emails_seq:
  "select_emails (s\<lparr>bookings_id_seq := n\<rparr>) a b = select_emails s a b"
  by (simp add: select_emails_def)

lemma book_alone:
  "interleave (book_step time_in) [True, True, True, True, True] (s, book_start notify user r, q) =
     (snd (book time_in notify s user r),
      (book_start notify user r)\<lparr>bp_pc := Book_Done (fst (book time_in notify s user r))\<rparr>, q)"
proof (cases "hour_out_of_range (parseInt (split_colon_0 (req_timeSlot r)))")
  case True
  then show ?thesis
    by (simp add: race_defs book_def)
next
  case hour: False
  show ?thesis
  proof (cases "time_in (req_timeSlot r)")
    case None
    with hour show ?thesis
      by (simp add: race_defs book_def)
  next
    case (Some t)
    note t = this
    show ?thesis
    proof (cases "count_bookings s (req_speakerId r) (req_date r) t > 0")
      case True
      with hour t show ?thesis
        by (simp add: race_defs book_def)
    next
      case free: False
      show ?thesis
      proof (cases "filter (\<lambda>u. u_id u = req_speakerId r) (users s) = [] \<or>
          filter (\<lambda>u. u_id u = userId user) (users s) = []")
        case True
        with hour t free show ?thesis
          by (simp add: race_defs book_def insert_booking_result rollback_bookings)
      next
        case False
        with hour t free show ?thesis
          by (cases "find (\<lambda>e. user_type e = ''user'') (select_emails s (userId user) (req_speakerId r))";
              cases "find (\<lambda>e. user_type e = ''speaker'') (select_emails s (userId user) (req_speakerId r))";
              cases notify)
             (simp_all add: race_defs book_def insert_booking_result rollback_bookings
               select_emails_bookings select_emails_seq Let_def)
      qed
    qed
  qed
qed

text \<open>One after the other, the second booking of a slot is refused and writes nothing.\<close>

lemma book_taken:
  assumes "\<not> hour_out_of_range (parseInt (split_colon_0 (req_timeSlot r)))"
    and "time_in (req_timeSlot r) = Some t"
    and "count_bookings s (req_speakerId r) (req_date r) t > 0"
  shows "book time_in notify s user r = (SlotUnavailable, s)"
  using assms by (simp add: book_def SlotUnavailable_def)

text \<open>
  C1. The claim: among concurrent reserve calls for one provider, date and
  slot exactly one succeeds, and one row exists afterwards. Each handler
  counts the reservations of the slot and inserts if it found none, inside a
  transaction of the default isolation level, and the table has no
  uniqueness constraint. When Ann's and Cat's requests for Bob's 10:00 slot
  alternate statement by statement, both count zero, both insert, both
  commit, both are answered 200, and the table holds two reservations of the
  slot.
\<close>

theorem concurrent_bookings_both_succeed:
  "interleave (book_step time_in_hhmm)
     [True, False, True, False, True, False, True, False, True, False]
     (trio_db, book_start None ann_claims (slot_req ''10:00''),
      book_start None cat_claims (slot_req ''10:00'')) =
   (trio_db\<lparr>session_bookings := [booked_row 1 10 0, (booked_row 2 10 0)\<lparr>b_user_id := 3\<rparr>],
      bookings_id_seq := 3\<rparr>,
    (book_start None ann_claims (slot_req ''10:00''))
      \<lparr>bp_pc := Book_Done (200, Message ''Session booked successfully'')\<rparr>,
    (book_start None cat_claims (slot_req ''10:00''))
      \<lparr>bp_pc := Book_Done (200, Message ''Session booked successfully'')\<rparr>) \<and>
   count_bookings
     (trio_db\<lparr>session_bookings := [booked_row 1 10 0, (booked_row 2 10 0)\<lparr>b_user_id := 3\<rparr>],
        bookings_id_seq := 3\<rparr>) 2 20072 \<lparr>hh = 10, mi = 0, usec = 0\<rparr> = 2 \<and>
   \<not> unique_slots
     (trio_db\<lparr>session_bookings := [booked_row 1 10 0, (booked_row 2 10 0)\<lparr>b_user_id := 3\<rparr>],
        bookings_id_seq := 3\<rparr>)"
  by (simp add: race_defs Let_def example_defs js_defs sql_defs unique_slots_def slot_key_def)


section \<open>Two signups for one email\<close>






lemma signup_catch_mail: "signup_catch MailError = (500, Error ''Error creating user'')"
  by (simp add: signup_catch_def)



lemma insert_user_result:
  "insert_user s a b e pw ut =
     (let row = \<lparr>u_id = users_id_seq s, first_name = a, last_name = b, email = e,
                 password = pw, user_type = ut, is_verified = False\<rparr> in
      if \<not> fits_users row then (Inl string_data_right_truncation, s)
      else if select_users_by_email (users s) e \<noteq> [] then (Inl unique_violation, s\<lparr>users_id_seq := users_id_seq s + 1\<rparr>)
      else (Inr (users_id_seq s), s\<lparr>users_id_seq := users_id_seq s + 1, users := users s @ [row]\<rparr>))"
  by (simp add: insert_user_def Let_def)







lemma contender_pc [simp]:
  "contender V e (p\<lparr>sp_pc := pc\<rparr>) = contender V e p"
  "contender V e (p\<lparr>sp_client := c\<rparr>) = contender V e p"
  by (simp_all add: contender_def)

lemma count_email_seq [simp]:
  "count_email (s\<lparr>users_id_seq := n\<rparr>) e = count_email s e"
  "count_email (s\<lparr>otp_id_seq := n\<rparr>) e = count_email s e"
  by (simp_all add: count_email_def)


















subsection \<open>Both handlers answer\<close>











subsection \<open>The function and the statements\<close>





text \<open>
  A signup handler that runs its five statements with nothing in between,
  beside a handler that holds no uncommitted account of the same email, does
  what the function \<open>signup\<close> says.
\<close>

lemma signup_alone:
  assumes "select_users_by_email (uncommitted_users q) (normalizeEmail V (req_email r)) = []"
  shows "interleave (signup_step V) [True, True, True, True, True] (s, signup_start env c r, q) =
     (snd (snd (signup V env c s r)),
      (signup_start env c r)\<lparr>sp_client := fst (snd (signup V env c s r)),
         sp_pc := Signup_Done (fst (signup V env c s r))\<rparr>, q)"
  using assms
  by (auto simp: signup_step_def signup_start_def signup_def sanitized_def Let_def insert_user_result
      insert_otp_def rollback_def)









end
